theory Spec2Isabelle
  imports Complex_Main "HOL-Library.Sublist"
begin

section \<open>Strings as the program sees them\<close>

text \<open>
  A JavaScript string is a sequence of UTF-16 code units. It is modelled as a
  \<^typ>\<open>string\<close>, one \<^typ>\<open>char\<close> per code unit, which covers the code units below 256.
  The regular expressions of the source are written out as recognisers on such lists.
\<close>

definition is_space :: "char \<Rightarrow> bool" where
  \<comment> \<open>the class \<open>\s\<close>, which is also what \<open>trim\<close> strips: tab, LF, VT, FF, CR, space, NBSP\<close>
  "is_space c = (c \<in> set [CHR 0x09, CHR 0x0A, CHR 0x0B, CHR 0x0C, CHR 0x0D, CHR 0x20, CHR 0xA0])"

definition is_line_terminator :: "char \<Rightarrow> bool" where
  \<comment> \<open>what \<open>.\<close> refuses to match\<close>
  "is_line_terminator c = (c = CHR 0x0A \<or> c = CHR 0x0D)"

definition is_upper :: "char \<Rightarrow> bool" where
  "is_upper c = (let n = (of_char c :: nat) in 65 \<le> n \<and> n \<le> 90)"

definition is_lower :: "char \<Rightarrow> bool" where
  "is_lower c = (let n = (of_char c :: nat) in 97 \<le> n \<and> n \<le> 122)"

definition is_digit :: "char \<Rightarrow> bool" where
  "is_digit c = (let n = (of_char c :: nat) in 48 \<le> n \<and> n \<le> 57)"

definition is_word :: "char \<Rightarrow> bool" where
  \<comment> \<open>the class \<open>\w\<close>\<close>
  "is_word c = (is_upper c \<or> is_lower c \<or> is_digit c \<or> c = CHR ''_'')"

definition lower :: "char \<Rightarrow> char" where
  \<comment> \<open>case folding of the \<open>i\<close> flag: without the \<open>u\<close> flag only the ASCII letters fold
      onto ASCII letters\<close>
  "lower c = (if is_upper c then char_of ((of_char c :: nat) + 32) else c)"

definition trim :: "string \<Rightarrow> string" where
  "trim s = rev (dropWhile is_space (rev (dropWhile is_space s)))"

definition ci_prefix :: "string \<Rightarrow> string \<Rightarrow> bool" where
  \<comment> \<open>the literal \<open>p\<close> matches, ignoring case, at the start of \<open>s\<close>\<close>
  "ci_prefix p s = (length p \<le> length s \<and> map lower (take (length p) s) = map lower p)"

fun search :: "(string \<Rightarrow> bool) \<Rightarrow> string \<Rightarrow> bool" where
  \<comment> \<open>an unanchored pattern matches when it matches at some position\<close>
  "search P [] = P []"
| "search P (c # cs) = (P (c # cs) \<or> search P cs)"

definition digit_char :: "nat \<Rightarrow> char" where
  "digit_char d = ''0123456789'' ! (d mod 10)"

function show_nat :: "nat \<Rightarrow> string" where
  \<comment> \<open>a non-negative integer inside a template literal: its decimal digits\<close>
  "show_nat n = (if n < 10 then [digit_char n] else show_nat (n div 10) @ [digit_char (n mod 10)])"
  by pat_completeness auto
termination
  by (relation "measure (\<lambda>n. n)") auto

fun join :: "string \<Rightarrow> string list \<Rightarrow> string" where
  \<comment> \<open>\<open>Array.prototype.join\<close>\<close>
  "join sep [] = []"
| "join sep [x] = x"
| "join sep (x # y # xs) = x @ sep @ join sep (y # xs)"


section \<open>Requests and validation results\<close>

datatype accuracy = High | Medium

datatype response_format = Comprehensive | Summary | Bullet_points

text \<open>
  \<open>DoDeepResearchRequest\<close>. A \<open>number\<close> is a rational here: the validator only compares
  the numbers of a request with constants that are exact in binary (500, 2000, 8000, 0,
  0.5, 1), so the comparisons on rationals are those on the doubles. An absent optional
  field is \<open>None\<close>.
\<close>

record request =
  research_query :: string
  accuracy_level :: accuracy
  max_tokens :: "rat option"
  temperature :: "rat option"
  include_sources :: "bool option"
  response_format :: "response_format option"

record validation_error =
  field :: string
  message :: string
  code :: string

text \<open>
  \<open>ValidationResult<T>\<close> is \<open>{isValid, data?, errors?}\<close>; every place that builds one
  sets \<open>data\<close> exactly when \<open>isValid\<close> is true and \<open>errors\<close> exactly when it is false.
\<close>

datatype 'a validation_result = Valid 'a | Invalid "validation_error list"

fun isValid :: "'a validation_result \<Rightarrow> bool" where
  "isValid (Valid _) = True"
| "isValid (Invalid _) = False"

fun errors :: "'a validation_result \<Rightarrow> validation_error list" where
  "errors (Valid _) = []"
| "errors (Invalid es) = es"

definition verr :: "string \<Rightarrow> string \<Rightarrow> string \<Rightarrow> validation_error" where
  "verr f m c = \<lparr>field = f, message = m, code = c\<rparr>"


section \<open>The schema\<close>

text \<open>
  \<open>DoDeepResearchSchema.parse\<close> on a value of the request type. The library is Zod 3 (the
  source passes \<open>errorMap\<close> and reads \<open>error.errors\<close>): it runs every check of a field
  and the refinement after them, collects one issue per failed
  check in the order of the shape, and throws when there is any; the handler of the
  exception turns each issue into \<open>{field: path, message, code}\<close>. The issue codes are
  the library's: \<open>too_small\<close>, \<open>too_big\<close>, \<open>invalid_string\<close> (a failed \<open>regex\<close>),
  \<open>custom\<close> (a failed \<open>refine\<close>), \<open>invalid_type\<close> (a failed \<open>int\<close>).
\<close>

definition no_angle :: "string \<Rightarrow> bool" where
  \<comment> \<open>\<open>/^[^<>]*$/\<close>\<close>
  "no_angle q = list_all (\<lambda>c. c \<noteq> CHR ''<'' \<and> c \<noteq> CHR ''>'') q"

definition ResearchQuerySchema :: "string \<Rightarrow> validation_error list" where
  "ResearchQuerySchema q =
     (if length q < 10
      then [verr ''research_query'' ''Research query must be at least 10 characters'' ''too_small'']
      else []) @
     (if length q > 2000
      then [verr ''research_query'' ''Research query must not exceed 2000 characters'' ''too_big'']
      else []) @
     (if \<not> no_angle q
      then [verr ''research_query'' ''Research query cannot contain HTML/XML tags'' ''invalid_string'']
      else []) @
     (if \<not> (length (trim q) \<ge> 10)
      then [verr ''research_query'' ''Research query must contain meaningful content'' ''custom'']
      else [])"

definition is_integer :: "rat \<Rightarrow> bool" where
  "is_integer x = (of_int \<lfloor>x\<rfloor> = x)"

definition MaxTokensSchema :: "rat option \<Rightarrow> validation_error list" where
  "MaxTokensSchema m =
     (case m of None \<Rightarrow> []
      | Some x \<Rightarrow>
         (if \<not> is_integer x
          then [verr ''max_tokens'' ''Max tokens must be an integer'' ''invalid_type''] else []) @
         (if x < 500
          then [verr ''max_tokens'' ''Max tokens must be at least 500'' ''too_small''] else []) @
         (if x > 8000
          then [verr ''max_tokens'' ''Max tokens cannot exceed 8000'' ''too_big''] else []))"

definition TemperatureSchema :: "rat option \<Rightarrow> validation_error list" where
  "TemperatureSchema t =
     (case t of None \<Rightarrow> []
      | Some x \<Rightarrow>
         (if x < 0
          then [verr ''temperature'' ''Temperature must be at least 0'' ''too_small''] else []) @
         (if x > 1
          then [verr ''temperature'' ''Temperature cannot exceed 1'' ''too_big''] else []))"

definition DoDeepResearchSchema :: "request \<Rightarrow> validation_error list + request" where
  \<comment> \<open>\<open>Inl\<close> is the thrown \<open>ZodError\<close>, already mapped to validation errors; on success the
      two defaults are filled in, and the optional numbers stay absent when absent\<close>
  "DoDeepResearchSchema r =
     (let issues = ResearchQuerySchema (research_query r) @ MaxTokensSchema (max_tokens r) @
                   TemperatureSchema (temperature r)
      in if issues \<noteq> [] then Inl issues
         else Inr (r\<lparr>include_sources :=
                        Some (case include_sources r of None \<Rightarrow> True | Some b \<Rightarrow> b),
                      response_format :=
                        Some (case response_format r of None \<Rightarrow> Comprehensive | Some f \<Rightarrow> f)\<rparr>))"


section \<open>Business rules and content safety\<close>

definition max_tokens_rule_error :: validation_error where
  "max_tokens_rule_error =
     verr ''max_tokens''
       ''High accuracy research typically requires at least 2000 tokens for quality results''
       ''business_rule''"

definition temperature_rule_error :: validation_error where
  "temperature_rule_error =
     verr ''temperature''
       ''High accuracy research works best with lower temperature (<= 0.5)''
       ''business_rule''"
  \<comment> \<open>the source's message has the sign U+2264 where \<open><=\<close> stands here\<close>

definition business_rule_errors :: "request \<Rightarrow> validation_error list" where
  \<comment> \<open>the list \<open>errors\<close> of \<open>validateBusinessRules\<close>; \<open>request.max_tokens && ...\<close> is false
      for an absent and for a zero \<open>max_tokens\<close>\<close>
  "business_rule_errors r =
     (if accuracy_level r = High \<and>
         (case max_tokens r of None \<Rightarrow> False | Some m \<Rightarrow> m \<noteq> 0 \<and> m < 2000)
      then [max_tokens_rule_error] else []) @
     (case temperature r of None \<Rightarrow> []
      | Some t \<Rightarrow> if accuracy_level r = High \<and> t > 1 / 2 then [temperature_rule_error] else [])"

definition validateBusinessRules :: "request \<Rightarrow> request validation_result" where
  \<comment> \<open>the complexity assessment between the two steps only feeds a log line\<close>
  "validateBusinessRules r =
     (if length (business_rule_errors r) > 0 then Invalid (business_rule_errors r) else Valid r)"

definition after_spaces :: "char \<Rightarrow> string \<Rightarrow> bool" where
  \<comment> \<open>\<open>\s*\<close> and then the character \<open>c\<close>\<close>
  "after_spaces c s = (case dropWhile is_space s of [] \<Rightarrow> False | d # _ \<Rightarrow> d = c)"

definition dangerousPatterns :: "(string \<Rightarrow> bool) list" where
  \<comment> \<open>each pattern as a recogniser at the start of the rest of the string\<close>
  "dangerousPatterns =
     [ci_prefix ''javascript:'',
      ci_prefix ''<script'',
      ci_prefix ''eval('',
      (\<lambda>s. ci_prefix ''function'' s \<and> after_spaces CHR ''('' (drop 8 s)),
      (\<lambda>s. ci_prefix ''on'' s \<and> takeWhile is_word (drop 2 s) \<noteq> [] \<and>
            after_spaces CHR ''='' (dropWhile is_word (drop 2 s))),
      ci_prefix ''data:text/html'']"

definition matches_dangerous :: "string \<Rightarrow> bool" where
  \<comment> \<open>the loop over the patterns: one of them tests true on the query\<close>
  "matches_dangerous q = list_ex (\<lambda>P. search P q) dangerousPatterns"

definition is_plain :: "char \<Rightarrow> bool" where
  \<comment> \<open>the class \<open>[a-zA-Z0-9\s.,!?;:()\-'"]\<close>\<close>
  "is_plain c = (is_upper c \<or> is_lower c \<or> is_digit c \<or> is_space c \<or>
                 c \<in> set ''.,!?;:()-'' \<or> c = CHR 0x27 \<or> c = CHR 0x22)"

definition specialCharCount :: "string \<Rightarrow> nat" where
  "specialCharCount q = length (filter (\<lambda>c. \<not> is_plain c) q)"

definition repeats_at :: "nat \<Rightarrow> string \<Rightarrow> bool" where
  \<comment> \<open>a block of \<open>n\<close> characters without line terminator, then three more copies of it\<close>
  "repeats_at n s =
     (3 \<le> n \<and> 4 * n \<le> length s \<and> list_all (\<lambda>c. \<not> is_line_terminator c) (take n s) \<and>
      take (4 * n) s = concat (replicate 4 (take n s)))"

definition repeatedPatterns :: "string \<Rightarrow> bool" where
  \<comment> \<open>\<open>/(.{3,})\1{3,}/g\<close> has a match\<close>
  "repeatedPatterns q = search (\<lambda>s. list_ex (\<lambda>n. repeats_at n s) [3 ..< Suc (length s div 4)]) q"

definition security_error :: validation_error where
  "security_error =
     verr ''research_query'' ''Research query contains potentially unsafe content'' ''security''"

definition content_safety_errors :: "string \<Rightarrow> validation_error list" where
  \<comment> \<open>\<open>specialCharCount > query.length * 0.2\<close>: the count is an integer and a fifth of a
      length is computed exactly or lies a fifth away from every integer, so the test on
      doubles is the test \<open>5 * count > length\<close>\<close>
  "content_safety_errors q =
     (if matches_dangerous q then [security_error] else []) @
     (if 5 * specialCharCount q > length q
      then [verr ''research_query'' ''Research query contains too many special characters'' ''format'']
      else []) @
     (if repeatedPatterns q
      then [verr ''research_query'' ''Research query contains excessive repetition'' ''spam'']
      else [])"

definition validateContentSafety :: "string \<Rightarrow> string validation_result" where
  "validateContentSafety q =
     (if length (content_safety_errors q) > 0 then Invalid (content_safety_errors q) else Valid q)"

definition validateResearchRequest :: "request \<Rightarrow> request validation_result" where
  "validateResearchRequest data =
     (case DoDeepResearchSchema data of
        Inl validationErrors \<Rightarrow> Invalid validationErrors
      | Inr validatedData \<Rightarrow>
          (case validateBusinessRules validatedData of
             Invalid es \<Rightarrow> Invalid es
           | Valid _ \<Rightarrow>
               (case validateContentSafety (research_query validatedData) of
                  Invalid es \<Rightarrow> Invalid es
                | Valid _ \<Rightarrow> Valid validatedData)))"


section \<open>Sanitising a query\<close>

function strip_tags :: "string \<Rightarrow> string" where
  \<comment> \<open>\<open>replace(/<[^>]*>/g, '')\<close>: a \<open><\<close> with a \<open>>\<close> somewhere after it is removed up to the
      first such \<open>>\<close>, and the scan goes on behind it\<close>
  "strip_tags [] = []"
| "strip_tags (c # cs) =
     (if c = CHR ''<'' \<and> CHR ''>'' \<in> set cs
      then strip_tags (tl (dropWhile (\<lambda>x. x \<noteq> CHR ''>'') cs))
      else c # strip_tags cs)"
  by pat_completeness auto
termination
proof (relation "measure length")
  show "wf (measure length)" by simp
next
  fix c :: char and cs :: string
  have "length (dropWhile (\<lambda>x. x \<noteq> CHR ''>'') cs) \<le> length cs"
    by (rule length_dropWhile_le)
  then have "length (tl (dropWhile (\<lambda>x. x \<noteq> CHR ''>'') cs)) \<le> length cs"
    by simp
  then show "(tl (dropWhile (\<lambda>x. x \<noteq> CHR ''>'') cs), c # cs) \<in> measure length"
    by simp
next
  fix c :: char and cs :: string
  show "(cs, c # cs) \<in> measure length" by simp
qed

function remove_ci :: "string \<Rightarrow> string \<Rightarrow> string" where
  \<comment> \<open>\<open>replace(/p/gi, '')\<close> for a literal \<open>p\<close>: every match found by one scan from the left
      is removed, and the scan goes on behind the match\<close>
  "remove_ci p [] = []"
| "remove_ci p (c # cs) =
     (if p \<noteq> [] \<and> ci_prefix p (c # cs)
      then remove_ci p (drop (length p) (c # cs))
      else c # remove_ci p cs)"
  by pat_completeness auto
termination
  by (relation "measure (\<lambda>(p, s). length s)") auto

function collapse_spaces :: "string \<Rightarrow> string" where
  \<comment> \<open>\<open>replace(/\s+/g, ' ')\<close>\<close>
  "collapse_spaces [] = []"
| "collapse_spaces (c # cs) =
     (if is_space c then CHR '' '' # collapse_spaces (dropWhile is_space cs)
      else c # collapse_spaces cs)"
  by pat_completeness auto
termination
proof (relation "measure length")
  show "wf (measure length)" by simp
next
  fix c :: char and cs :: string
  have "length (dropWhile is_space cs) \<le> length cs"
    by (rule length_dropWhile_le)
  then show "(dropWhile is_space cs, c # cs) \<in> measure length"
    by simp
next
  fix c :: char and cs :: string
  show "(cs, c # cs) \<in> measure length" by simp
qed

definition sanitizeQuery :: "string \<Rightarrow> string" where
  \<comment> \<open>the truncation also logs a warning, which changes no result\<close>
  "sanitizeQuery query =
     (let sanitized = trim (remove_ci ''data:text/html'' (remove_ci ''javascript:'' (strip_tags query)));
          sanitized = collapse_spaces sanitized
      in if length sanitized > 2000 then take 2000 sanitized else sanitized)"


section \<open>The research client\<close>

text \<open>
  The response of the external service, as far as \<open>performDeepResearch\<close> reads it: an
  object read from JSON, of any shape. A field that is absent, or that fails the
  \<open>typeof\<close> or \<open>Array.isArray\<close> test the code puts in front of its use, is \<open>None\<close>. The
  \<open>text\<close> of a content item is read by a log line before its type is tested, so the model
  keeps apart the values on which that line behaves differently; an element of the output
  list or of a content list can be \<open>null\<close>, which is \<open>None\<close>, and an element that is no
  object has no \<open>type\<close> and no \<open>text\<close>. A token count is a natural number, and is read
  through \<open>|| 0\<close>, so an absent count is the count 0. \<open>response_keys\<close> is
  \<open>Object.keys(response)\<close>.
\<close>

datatype text_field =
    No_text \<comment> \<open>absent, or a falsy value that is not a string: \<open>null\<close>, \<open>0\<close>, \<open>false\<close>\<close>
  | Text string \<comment> \<open>a string; the empty one is falsy\<close>
  | Not_text \<comment> \<open>a truthy value that is not a string: a nonzero number, \<open>true\<close>, an object or array\<close>

record content_item =
  item_type :: string
  item_text :: text_field

record output_item =
  output_type :: string
  output_content :: "content_item option list option"

record api_usage =
  input_tokens :: nat
  output_tokens :: nat
  total_tokens :: nat
  reasoning_tokens :: nat

record api_response =
  response_keys :: "string list"
  status :: string
  output_text :: "string option"
  output_items :: "output_item option list option"
  top_text :: "string option"
  top_content :: "string option"
  usage :: "api_usage option"

text \<open>
  What the model records of a run: the calls to the collaborators and the log lines of
  error severity. The lines of lower severity are not recorded.
\<close>

datatype event =
    ClientCall request
  | ApiCall string string
  | LogError string
  | RateLimitCheck string accuracy
  | RateLimitRecord string accuracy

text \<open>The external service: model name and input to a thrown error (its message) or a response.\<close>

type_synonym api = "string \<Rightarrow> string \<Rightarrow> string + api_response"

definition getModelForAccuracy :: "accuracy \<Rightarrow> string" where
  "getModelForAccuracy accuracyLevel =
     (if accuracyLevel = High then ''o3-deep-research'' else ''o4-mini-deep-research'')"

definition truthy_text :: "string option \<Rightarrow> bool" where
  \<comment> \<open>\<open>x && typeof x === 'string'\<close> for a field of the response itself: a string that is
      not empty\<close>
  "truthy_text t = (case t of None \<Rightarrow> False | Some x \<Rightarrow> x \<noteq> [])"

definition from_output_text :: "api_response \<Rightarrow> string" where
  \<comment> \<open>method 1: the convenience field \<open>output_text\<close>\<close>
  "from_output_text response =
     (case output_text response of
        None \<Rightarrow> []
      | Some t \<Rightarrow> if t \<noteq> [] \<and> length (trim t) > 0 then trim t else [])"

text \<open>
  The two \<open>TypeError\<close>s that the loops of method 2 can throw, with the message text of
  the V8 engine: reading \<open>type\<close> of a \<open>null\<close> element, and calling \<open>substring\<close> on a
  \<open>text\<close> that is truthy and has no such method.
\<close>

definition null_type_message :: string where
  "null_type_message =
     ''Cannot read properties of null (reading '' @ [CHR 0x27] @ ''type'' @ [CHR 0x27] @ '')''"

definition not_a_function_message :: string where
  "not_a_function_message = ''contentItem.text.substring is not a function''"

definition truthy_string :: "text_field \<Rightarrow> bool" where
  \<comment> \<open>\<open>x && typeof x === 'string'\<close>\<close>
  "truthy_string t = (case t of Text x \<Rightarrow> x \<noteq> [] | _ \<Rightarrow> False)"

definition string_of :: "text_field \<Rightarrow> string" where
  "string_of t = (case t of Text x \<Rightarrow> x | _ \<Rightarrow> [])"

fun scan_content :: "content_item option list \<Rightarrow> string + string" where
  \<comment> \<open>the inner loop of method 2, entered with \<open>content\<close> empty: \<open>Inl\<close> is a thrown error,
      \<open>Inr\<close> the content after the loop. The log line at the head of the body reads
      \<open>contentItem.type\<close> and, for a truthy \<open>text\<close>, calls \<open>contentItem.text.substring\<close>\<close>
  "scan_content [] = Inr []"
| "scan_content (None # rest) = Inl null_type_message"
| "scan_content (Some contentItem # rest) =
     (if item_text contentItem = Not_text then Inl not_a_function_message
      else if item_type contentItem = ''output_text'' \<and> truthy_string (item_text contentItem)
      then Inr (string_of (item_text contentItem))
      else if item_type contentItem = ''text'' \<and> truthy_string (item_text contentItem)
      then Inr (string_of (item_text contentItem))
      else scan_content rest)"

fun scan_output :: "output_item option list \<Rightarrow> string + string" where
  \<comment> \<open>the outer loop of method 2; the log line at the head of its body reads
      \<open>outputItem.type\<close>\<close>
  "scan_output [] = Inr []"
| "scan_output (None # rest) = Inl null_type_message"
| "scan_output (Some outputItem # rest) =
     (case (if output_type outputItem = ''message'' then output_content outputItem else None) of
        None \<Rightarrow> scan_output rest
      | Some items \<Rightarrow>
          (case scan_content items of
             Inl thrown \<Rightarrow> Inl thrown
           | Inr content \<Rightarrow> if content \<noteq> [] then Inr content else scan_output rest))"

definition from_top_level :: "api_response \<Rightarrow> string" where
  \<comment> \<open>method 3: the fields \<open>text\<close> and \<open>content\<close> of the response itself\<close>
  "from_top_level response =
     (if truthy_text (top_text response) \<and> length (the (top_text response)) > 0
      then the (top_text response)
      else if truthy_text (top_content response) \<and> length (the (top_content response)) > 0
      then the (top_content response)
      else [])"

definition extracted_content :: "api_response \<Rightarrow> string + string" where
  \<comment> \<open>\<open>content\<close> after the three methods, or the error thrown on the way\<close>
  "extracted_content response =
     (let content = from_output_text response
      in case (if content = []
               then (case output_items response of
                       None \<Rightarrow> Inr content
                     | Some items \<Rightarrow> if length items > 0 then scan_output items else Inr content)
               else Inr content) of
           Inl thrown \<Rightarrow> Inl thrown
         | Inr content \<Rightarrow> Inr (if content = [] then from_top_level response else content))"

definition hex_digit :: "nat \<Rightarrow> char" where
  "hex_digit d = ''0123456789abcdef'' ! (d mod 16)"

definition json_char :: "char \<Rightarrow> string" where
  \<comment> \<open>one code unit inside a JSON string literal\<close>
  "json_char c =
     (if c = CHR 0x22 then [CHR 0x5C, CHR 0x22]
      else if c = CHR 0x5C then [CHR 0x5C, CHR 0x5C]
      else if c = CHR 0x08 then [CHR 0x5C, CHR ''b'']
      else if c = CHR 0x09 then [CHR 0x5C, CHR ''t'']
      else if c = CHR 0x0A then [CHR 0x5C, CHR ''n'']
      else if c = CHR 0x0C then [CHR 0x5C, CHR ''f'']
      else if c = CHR 0x0D then [CHR 0x5C, CHR ''r'']
      else if (of_char c :: nat) < 32
      then [CHR 0x5C, CHR ''u'', CHR ''0'', CHR ''0'',
            hex_digit ((of_char c :: nat) div 16), hex_digit ((of_char c :: nat) mod 16)]
      else [c])"

definition json_string :: "string \<Rightarrow> string" where
  "json_string x = [CHR 0x22] @ concat (map json_char x) @ [CHR 0x22]"

definition json_keys :: "string list \<Rightarrow> string" where
  \<comment> \<open>\<open>JSON.stringify(keys, null, 2)\<close> for an array of strings\<close>
  "json_keys ks =
     (if ks = [] then ''[]''
      else [CHR ''['', CHR 0x0A] @ '' '' @ '' '' @
           join ([CHR '','', CHR 0x0A] @ '' '' @ '' '') (map json_string ks) @
           [CHR 0x0A, CHR '']''])"

definition output_token_count :: "api_response \<Rightarrow> nat" where
  \<comment> \<open>\<open>response.usage?.output_tokens || 0\<close>\<close>
  "output_token_count response = (case usage response of None \<Rightarrow> 0 | Some u \<Rightarrow> output_tokens u)"

definition parsing_error_placeholder :: "api_response \<Rightarrow> string" where
  "parsing_error_placeholder response =
     ''[Content parsing error: OpenAI generated '' @ show_nat (output_token_count response) @
     '' tokens but content extraction failed. Response structure: '' @
     json_keys (response_keys response) @ '']''"

definition no_usable_content :: "string \<Rightarrow> bool" where
  \<comment> \<open>the test of the final fallback: \<open>!content || content.trim().length === 0\<close>\<close>
  "no_usable_content content = (content = [] \<or> length (trim content) = 0)"

definition final_content :: "api_response \<Rightarrow> string \<Rightarrow> string" where
  "final_content response content =
     (if no_usable_content content
      then (if output_token_count response > 0
            then parsing_error_placeholder response
            else ''No content returned from OpenAI'')
      else content)"

subsection \<open>The numbers of the cost computation\<close>

text \<open>
  The cost is computed in double precision. A finite double that is not negative is a
  mantissa \<open>m\<close> and an exponent \<open>e\<close> and stands for \<open>m * 2 ^ e\<close>; zero has both 0, every
  other result of an operation below has \<open>2 ^ 52 \<le> m < 2 ^ 53\<close>. Each operation rounds
  the exact result to the nearest such number, ties to the even mantissa. The exponent is
  not bounded, so overflow and subnormal numbers are outside the model; token counts below
  \<open>2 ^ 53\<close> stay far inside the range of a double.
\<close>

record double =
  mantissa :: nat
  exponent :: int

definition double_value :: "double \<Rightarrow> rat" where
  "double_value a = of_nat (mantissa a) * 2 powi (exponent a)"

function bit_length :: "nat \<Rightarrow> nat" where
  "bit_length n = (if n = 0 then 0 else Suc (bit_length (n div 2)))"
  by pat_completeness auto
termination
  by (relation "measure (\<lambda>n. n)") auto

definition round_half_even :: "nat \<Rightarrow> nat \<Rightarrow> nat" where
  \<comment> \<open>the integer nearest to \<open>p / q\<close>\<close>
  "round_half_even p q =
     (let d = p div q; r = p mod q
      in if 2 * r < q then d else if 2 * r > q then d + 1 else if even d then d else d + 1)"

definition scaled :: "nat \<Rightarrow> nat \<Rightarrow> int \<Rightarrow> nat \<times> nat" where
  \<comment> \<open>numerator and denominator of \<open>(p / q) / 2 ^ e\<close>\<close>
  "scaled p q e = (if e \<ge> 0 then (p, q * 2 ^ nat e) else (p * 2 ^ nat (- e), q))"

definition nearest_double :: "nat \<Rightarrow> nat \<Rightarrow> double" where
  \<comment> \<open>the double nearest to \<open>p / q\<close>, for \<open>q > 0\<close>: the exponent is chosen so that the scaled
      value lies between \<open>2 ^ 52\<close> and \<open>2 ^ 53\<close>, and the scaled value is rounded\<close>
  "nearest_double p q =
     (if p = 0 then \<lparr>mantissa = 0, exponent = 0\<rparr>
      else
        (let e0 = int (bit_length p) - int (bit_length q) - 53;
             e = (if fst (scaled p q e0) \<ge> 2 ^ 53 * snd (scaled p q e0) then e0 + 1 else e0);
             m = round_half_even (fst (scaled p q e)) (snd (scaled p q e))
         in if m = 2 ^ 53 then \<lparr>mantissa = 2 ^ 52, exponent = e + 1\<rparr>
            else \<lparr>mantissa = m, exponent = e\<rparr>))"

definition fraction :: "double \<Rightarrow> nat \<times> nat" where
  \<comment> \<open>the value as numerator and denominator\<close>
  "fraction a = scaled (mantissa a) 1 (- exponent a)"

definition double_of_nat :: "nat \<Rightarrow> double" where
  "double_of_nat n = nearest_double n 1"

definition double_div :: "double \<Rightarrow> double \<Rightarrow> double" where
  \<comment> \<open>\<open>a / b\<close> for \<open>b\<close> not zero\<close>
  "double_div a b =
     nearest_double (fst (fraction a) * snd (fraction b)) (snd (fraction a) * fst (fraction b))"

definition double_mult :: "double \<Rightarrow> double \<Rightarrow> double" where
  "double_mult a b =
     nearest_double (fst (fraction a) * fst (fraction b)) (snd (fraction a) * snd (fraction b))"

definition fixed4_digits :: "double \<Rightarrow> nat" where
  \<comment> \<open>\<open>toFixed(4)\<close> takes the integer \<open>n\<close> for which \<open>n / 10 ^ 4\<close> is nearest to the value and
      the larger one of two such, and prints its digits with a point before the last four\<close>
  "fixed4_digits a = (2 * fst (fraction a) * 10 ^ 4 + snd (fraction a)) div (2 * snd (fraction a))"

definition parseFloat_toFixed4 :: "double \<Rightarrow> double" where
  \<comment> \<open>\<open>parseFloat(x.toFixed(4))\<close>: from \<open>10 ^ 21\<close> on \<open>toFixed\<close> prints the number itself\<close>
  "parseFloat_toFixed4 a =
     (if fst (fraction a) \<ge> 10 ^ 21 * snd (fraction a) then a
      else nearest_double (fixed4_digits a) (10 ^ 4))"

record cost_info =
  estimated_cost_usd :: double
  cost_per_1k_tokens :: double
  billing_tier :: string

definition costPerToken :: "accuracy \<Rightarrow> double" where
  \<comment> \<open>the literals \<open>0.02\<close> and \<open>0.006\<close>\<close>
  "costPerToken accuracyLevel =
     (case accuracyLevel of High \<Rightarrow> nearest_double 2 100 | Medium \<Rightarrow> nearest_double 6 1000)"

definition totalTokens :: "api_usage option \<Rightarrow> nat" where
  \<comment> \<open>\<open>usage?.total_tokens || 0\<close>\<close>
  "totalTokens usage_opt = (case usage_opt of None \<Rightarrow> 0 | Some u \<Rightarrow> total_tokens u)"

definition cost_estimate :: "accuracy \<Rightarrow> api_usage option \<Rightarrow> double" where
  \<comment> \<open>the local \<open>estimatedCost\<close>: \<open>(totalTokens / 1000) * costPerToken[accuracyLevel]\<close>\<close>
  "cost_estimate accuracyLevel usage_opt =
     double_mult (double_div (double_of_nat (totalTokens usage_opt)) (double_of_nat 1000))
       (costPerToken accuracyLevel)"

definition calculateCosts :: "accuracy \<Rightarrow> api_usage option \<Rightarrow> cost_info" where
  \<comment> \<open>nothing in the \<open>try\<close> block throws, so the fallback of its \<open>catch\<close> is never returned\<close>
  "calculateCosts accuracyLevel usage_opt =
     \<lparr>estimated_cost_usd = parseFloat_toFixed4 (cost_estimate accuracyLevel usage_opt),
      cost_per_1k_tokens = costPerToken accuracyLevel,
      billing_tier = (if accuracyLevel = High then ''premium'' else ''standard'')\<rparr>"

text \<open>
  The exact numbers the doubles are compared with: the rates as the decimal fractions the
  source writes, and the cost formula \<open>(total_tokens / 1000) * rate\<close> in exact arithmetic.
\<close>

definition decimal_rate :: "accuracy \<Rightarrow> rat" where
  "decimal_rate accuracyLevel = (case accuracyLevel of High \<Rightarrow> 2 / 100 | Medium \<Rightarrow> 6 / 1000)"

definition exact_cost :: "accuracy \<Rightarrow> nat \<Rightarrow> rat" where
  "exact_cost accuracyLevel tokens = of_nat tokens / 1000 * decimal_rate accuracyLevel"

subsection \<open>The response of the client\<close>

definition generateLimitations :: "accuracy \<Rightarrow> string list" where
  "generateLimitations accuracyLevel =
     [''Results based on available public information'',
      ''Information accuracy depends on source reliability''] @
     (if accuracyLevel = Medium
      then [''Faster processing may result in less comprehensive analysis''] else [])"

record token_usage =
  tu_input_tokens :: nat
  tu_output_tokens :: nat
  tu_total_tokens :: nat

text \<open>
  \<open>DoDeepResearchResponse\<close>, without the fields that are heuristics on the text of the
  result (summary, related topics, source count, confidence and the two constant scores)
  and without the identifier, the time stamp and the raw output, which come from the clock
  and the response unchanged.
\<close>

record research_response =
  research_results :: string
  model_used :: string
  response_accuracy_level :: accuracy
  source_quality_score :: nat
  rate_limit_remaining :: nat
  limitations :: "string list"
  response_token_usage :: token_usage
  response_cost_info :: cost_info

definition incomplete_message :: "api_response \<Rightarrow> string" where
  "incomplete_message response =
     ''OpenAI Deep Research response incomplete. The model is still processing your request. '' @
     ''Please try again in a few moments. Status: '' @ status response @
     '', Reasoning tokens used: '' @
     show_nat (case usage response of None \<Rightarrow> 0 | Some u \<Rightarrow> reasoning_tokens u)"

definition client_failure :: "string \<Rightarrow> event list \<Rightarrow> (string + research_response) \<times> event list" where
  \<comment> \<open>the \<open>catch\<close> of \<open>performDeepResearch\<close>: log at error severity, throw a new error
      around the message\<close>
  "client_failure msg evs =
     (Inl (''OpenAI Deep Research failed: '' @ msg),
      evs @ [LogError ''OpenAI Client: performDeepResearch failed''])"

definition performDeepResearch ::
  "api \<Rightarrow> request \<Rightarrow> (string + research_response) \<times> event list" where
  \<comment> \<open>\<open>Inl\<close> is the message of the error thrown\<close>
  "performDeepResearch openai request =
     (let modelName = getModelForAccuracy (accuracy_level request);
          call = ApiCall modelName (research_query request)
      in case openai modelName (research_query request) of
           Inl thrown \<Rightarrow> client_failure thrown [call]
         | Inr response \<Rightarrow>
             if status response = ''incomplete''
             then client_failure (incomplete_message response) [call]
             else
               (case extracted_content response of
                  Inl thrown \<Rightarrow> client_failure thrown [call]
                | Inr content \<Rightarrow>
                    (Inr \<lparr>research_results = final_content response content,
                          model_used = modelName,
                          response_accuracy_level = accuracy_level request,
                          source_quality_score = 85,
                          rate_limit_remaining = 100,
                          limitations = generateLimitations (accuracy_level request),
                          response_token_usage =
                            (case usage response of
                               None \<Rightarrow> \<lparr>tu_input_tokens = 0, tu_output_tokens = 0,
                                         tu_total_tokens = 0\<rparr>
                             | Some u \<Rightarrow> \<lparr>tu_input_tokens = input_tokens u,
                                           tu_output_tokens = output_tokens u,
                                           tu_total_tokens = total_tokens u\<rparr>),
                          response_cost_info =
                            calculateCosts (accuracy_level request) (usage response)\<rparr>,
                     [call] @
                     (if no_usable_content content \<and> output_token_count response > 0
                      then [LogError ''Content extraction failed despite token usage'']
                      else []))))"


section \<open>The request handler\<close>

text \<open>What the handler reads from the clock and the random source.\<close>

record clock =
  date_now :: nat
  random_suffix :: string
  iso_now :: string

text \<open>The object that the handler serialises into the text of its answer.\<close>

record failure_envelope =
  f_error :: string
  f_error_type :: string
  f_request_id :: string
  f_timestamp :: "string option"

record success_envelope =
  s_research_results :: string
  s_model_used :: string
  s_limitations :: "string list"
  s_token_usage :: token_usage
  s_cost_info :: cost_info
  s_request_id :: string
  s_rate_limit_remaining :: nat

datatype envelope = Success success_envelope | Failure failure_envelope

fun success :: "envelope \<Rightarrow> bool" where
  \<comment> \<open>the field \<open>success\<close> of the serialised object\<close>
  "success (Success _) = True"
| "success (Failure _) = False"

definition make_request_id :: "clock \<Rightarrow> string" where
  "make_request_id clk = ''req_'' @ show_nat (date_now clk) @ ''_'' @ random_suffix clk"

definition validation_message :: "validation_error list \<Rightarrow> string" where
  "validation_message es =
     ''Request validation failed: '' @ join '', '' (map (\<lambda>e. field e @ '': '' @ message e) es)"

definition handleDeepResearchRequest :: "clock \<Rightarrow> api \<Rightarrow> request \<Rightarrow> envelope \<times> event list" where
  "handleDeepResearchRequest clk openai request =
     (let requestId = make_request_id clk
      in case validateResearchRequest request of
           Invalid es \<Rightarrow>
             (Failure \<lparr>f_error = validation_message es,
                       f_error_type = ''validation_error'',
                       f_request_id = requestId,
                       f_timestamp = None\<rparr>, [])
         | Valid validatedRequest \<Rightarrow>
             (let sanitizedQuery = sanitizeQuery (research_query validatedRequest);
                  researchRequest = validatedRequest\<lparr>research_query := sanitizedQuery\<rparr>
              in case performDeepResearch openai researchRequest of
                   (Inl thrown, evs) \<Rightarrow>
                     (Failure \<lparr>f_error = thrown,
                               f_error_type = ''internal_error'',
                               f_request_id = requestId,
                               f_timestamp = Some (iso_now clk)\<rparr>,
                      ClientCall researchRequest # evs @ [LogError ''Research request failed''])
                 | (Inr researchResult, evs) \<Rightarrow>
                     (Success \<lparr>s_research_results = research_results researchResult,
                               s_model_used = model_used researchResult,
                               s_limitations = limitations researchResult,
                               s_token_usage = response_token_usage researchResult,
                               s_cost_info = response_cost_info researchResult,
                               s_request_id = requestId,
                               s_rate_limit_remaining = 100\<rparr>,
                      ClientCall researchRequest # evs)))"

fun is_client_call :: "event \<Rightarrow> bool" where
  "is_client_call (ClientCall _) = True"
| "is_client_call _ = False"

fun is_api_call :: "event \<Rightarrow> bool" where
  "is_api_call (ApiCall _ _) = True"
| "is_api_call _ = False"

fun is_rate_limiter_call :: "event \<Rightarrow> bool" where
  "is_rate_limiter_call (RateLimitCheck _ _) = True"
| "is_rate_limiter_call (RateLimitRecord _ _) = True"
| "is_rate_limiter_call _ = False"


section \<open>The rate limiter\<close>

text \<open>
  \<open>RateLimitConfig\<close> and the table of the limiter. The counters of a client live in one
  map from keys (\<open>hour:<n>\<close>, \<open>day:<n>:<level>\<close>, \<open>cost:<n>\<close>) to numbers; request counts
  and costs share it, so its values are rationals. The request counts are small integers,
  which doubles hold exactly; the costs are sums of doubles in the source and exact sums
  here. A limit of the configuration is an integer, falsy when it is 0. \<open>Date.now()\<close> is
  the argument \<open>now\<close>, in milliseconds.
\<close>

record RateLimitConfig =
  requests_per_hour :: int
  requests_per_day :: int
  tokens_per_day :: int
  daily_cost_limit_usd :: rat
  high_accuracy_daily_limit :: int
  medium_accuracy_daily_limit :: int

record ClientUsage =
  requestCounts :: "string \<rightharpoonup> rat"
  totalCost :: rat
  lastRequestTime :: nat

type_synonym usage_table = "string \<rightharpoonup> ClientUsage"

record RateLimitResult =
  allowed :: bool
  reason :: "string option"
  remaining :: rat
  retryAfter :: nat
  costRemaining :: rat

definition accuracy_name :: "accuracy \<Rightarrow> string" where
  "accuracy_name l = (case l of High \<Rightarrow> ''high'' | Medium \<Rightarrow> ''medium'')"

definition hourKey :: "nat \<Rightarrow> string" where
  "hourKey currentHour = ''hour:'' @ show_nat currentHour"

definition dailyKey :: "nat \<Rightarrow> accuracy \<Rightarrow> string" where
  "dailyKey currentDay accuracyLevel =
     ''day:'' @ show_nat currentDay @ '':'' @ accuracy_name accuracyLevel"

definition costKey :: "nat \<Rightarrow> string" where
  "costKey currentDay = ''cost:'' @ show_nat currentDay"

definition count_of :: "(string \<rightharpoonup> rat) \<Rightarrow> string \<Rightarrow> rat" where
  \<comment> \<open>\<open>requestCounts.get(key) || 0\<close>\<close>
  "count_of counts k = (case counts k of None \<Rightarrow> 0 | Some n \<Rightarrow> n)"

definition get_or_create :: "usage_table \<Rightarrow> string \<Rightarrow> nat \<Rightarrow> ClientUsage" where
  "get_or_create clientUsage clientId now =
     (case clientUsage clientId of
        None \<Rightarrow> \<lparr>requestCounts = Map.empty, totalCost = 0, lastRequestTime = now\<rparr>
      | Some entry \<Rightarrow> entry)"

definition getHourlyLimit :: "RateLimitConfig \<Rightarrow> accuracy \<Rightarrow> int" where
  "getHourlyLimit config accuracyLevel =
     (if accuracyLevel = High
      then (if high_accuracy_daily_limit config \<noteq> 0 then high_accuracy_daily_limit config else 3)
      else (if medium_accuracy_daily_limit config \<noteq> 0 then medium_accuracy_daily_limit config else 6))"

definition getDailyLimit :: "RateLimitConfig \<Rightarrow> accuracy \<Rightarrow> int" where
  "getDailyLimit config accuracyLevel =
     (if accuracyLevel = High
      then (if high_accuracy_daily_limit config \<noteq> 0 then high_accuracy_daily_limit config else 8)
      else (if medium_accuracy_daily_limit config \<noteq> 0 then medium_accuracy_daily_limit config else 15))"

definition getDailyCost :: "ClientUsage \<Rightarrow> nat \<Rightarrow> rat" where
  "getDailyCost entry currentDay = count_of (requestCounts entry) (costKey currentDay)"

definition getDailyRequests :: "ClientUsage \<Rightarrow> nat \<Rightarrow> accuracy \<Rightarrow> rat" where
  "getDailyRequests entry currentDay accuracyLevel =
     count_of (requestCounts entry) (dailyKey currentDay accuracyLevel)"

definition hourlyRequests :: "usage_table \<Rightarrow> string \<Rightarrow> nat \<Rightarrow> rat" where
  \<comment> \<open>the counter that \<open>checkRateLimit\<close> at time \<open>now\<close> reads first\<close>
  "hourlyRequests clientUsage clientId now =
     count_of (requestCounts (get_or_create clientUsage clientId now)) (hourKey (now div (60 * 60 * 1000)))"

definition checkRateLimit ::
  "RateLimitConfig \<Rightarrow> usage_table \<Rightarrow> string \<Rightarrow> accuracy \<Rightarrow> rat option \<Rightarrow> nat
     \<Rightarrow> RateLimitResult \<times> usage_table" where
  \<comment> \<open>the result and the table, which has gained an entry for a client seen first; an
      absent or zero \<open>estimatedCost\<close> is falsy\<close>
  "checkRateLimit config clientUsage clientId accuracyLevel estimatedCost now =
     (let currentHour = now div (60 * 60 * 1000);
          currentDay = now div (24 * 60 * 60 * 1000);
          entry = get_or_create clientUsage clientId now;
          clientUsage' = clientUsage(clientId \<mapsto> entry);
          hourly = count_of (requestCounts entry) (hourKey currentHour);
          hourlyLimit = getHourlyLimit config accuracyLevel
      in if hourly \<ge> of_int hourlyLimit
         then (\<lparr>allowed = False, reason = Some ''hourly_limit'', remaining = 0,
                 retryAfter = (currentHour + 1) * 60 * 60 * 1000,
                 costRemaining = daily_cost_limit_usd config - totalCost entry\<rparr>, clientUsage')
         else
           (let dailyCost = getDailyCost entry currentDay
            in if (case estimatedCost of None \<Rightarrow> False
                   | Some c \<Rightarrow> c \<noteq> 0 \<and> dailyCost + c > daily_cost_limit_usd config)
               then (\<lparr>allowed = False, reason = Some ''cost_limit'',
                       remaining = of_int hourlyLimit - hourly,
                       retryAfter = (currentDay + 1) * 24 * 60 * 60 * 1000,
                       costRemaining = max 0 (daily_cost_limit_usd config - dailyCost)\<rparr>,
                     clientUsage')
               else
                 (let dailyRequests = getDailyRequests entry currentDay accuracyLevel;
                      dailyLimit = getDailyLimit config accuracyLevel
                  in if dailyRequests \<ge> of_int dailyLimit
                     then (\<lparr>allowed = False, reason = Some ''daily_limit'', remaining = 0,
                             retryAfter = (currentDay + 1) * 24 * 60 * 60 * 1000,
                             costRemaining = max 0 (daily_cost_limit_usd config - dailyCost)\<rparr>,
                           clientUsage')
                     else (\<lparr>allowed = True, reason = None,
                             remaining = min (of_int hourlyLimit - hourly - 1)
                                             (of_int dailyLimit - dailyRequests - 1),
                             retryAfter = (currentHour + 1) * 60 * 60 * 1000,
                             costRemaining = max 0 (daily_cost_limit_usd config - dailyCost)\<rparr>,
                           clientUsage'))))"

definition recordRequest ::
  "usage_table \<Rightarrow> string \<Rightarrow> accuracy \<Rightarrow> rat \<Rightarrow> nat \<Rightarrow> nat \<Rightarrow> usage_table" where
  "recordRequest clientUsage clientId accuracyLevel actualCost tokensUsed now =
     (let currentHour = now div (60 * 60 * 1000);
          currentDay = now div (24 * 60 * 60 * 1000);
          entry = get_or_create clientUsage clientId now;
          counts = requestCounts entry;
          counts = counts(hourKey currentHour \<mapsto> count_of counts (hourKey currentHour) + 1);
          counts = counts(dailyKey currentDay accuracyLevel \<mapsto>
                            count_of counts (dailyKey currentDay accuracyLevel) + 1);
          counts = counts(costKey currentDay \<mapsto> count_of counts (costKey currentDay) + actualCost)
      in clientUsage(clientId \<mapsto>
           \<lparr>requestCounts = counts, totalCost = totalCost entry + actualCost,
             lastRequestTime = now\<rparr>))"

text \<open>One recorded request: accuracy level, actual cost, tokens used, and the time of the call.\<close>

type_synonym recorded = "accuracy \<times> rat \<times> nat \<times> nat"

fun record_all :: "usage_table \<Rightarrow> string \<Rightarrow> recorded list \<Rightarrow> usage_table" where
  \<comment> \<open>\<open>recordRequest\<close> called for one client once per element, in order\<close>
  "record_all clientUsage clientId [] = clientUsage"
| "record_all clientUsage clientId ((accuracyLevel, actualCost, tokensUsed, now) # rest) =
     record_all (recordRequest clientUsage clientId accuracyLevel actualCost tokensUsed now)
       clientId rest"

fun recorded_at :: "recorded \<Rightarrow> nat" where
  "recorded_at (accuracyLevel, actualCost, tokensUsed, now) = now"


section \<open>Example inputs\<close>

definition script_request :: request where
  "script_request = \<lparr>research_query = ''<script>alert(1)</script>'', accuracy_level = Medium,
     max_tokens = None, temperature = None, include_sources = None, response_format = None\<rparr>"

definition onclick_request :: request where
  "onclick_request = \<lparr>research_query = ''please explain onclick = handlers'',
     accuracy_level = Medium, max_tokens = None, temperature = None, include_sources = None,
     response_format = None\<rparr>"

definition short_request :: request where
  "short_request = \<lparr>research_query = ''hello'', accuracy_level = Medium,
     max_tokens = None, temperature = None, include_sources = None, response_format = None\<rparr>"

definition plain_request :: request where
  "plain_request = \<lparr>research_query = ''history of the metric system'', accuracy_level = Medium,
     max_tokens = None, temperature = None, include_sources = None, response_format = None\<rparr>"

definition plain_validated :: request where
  "plain_validated = \<lparr>research_query = ''history of the metric system'', accuracy_level = Medium,
     max_tokens = None, temperature = None, include_sources = Some True,
     response_format = Some Comprehensive\<rparr>"

definition high_request :: "rat option \<Rightarrow> rat option \<Rightarrow> request" where
  "high_request m t = \<lparr>research_query = ''history of the metric system'', accuracy_level = High,
     max_tokens = m, temperature = t, include_sources = None, response_format = None\<rparr>"

definition clock0 :: clock where
  "clock0 = \<lparr>date_now = 1700000000000, random_suffix = ''k3x9q2m1z'',
     iso_now = ''2023-11-14T22:13:20.000Z''\<rparr>"

definition usage0 :: api_usage where
  "usage0 = \<lparr>input_tokens = 1000, output_tokens = 4000, total_tokens = 5000,
     reasoning_tokens = 20\<rparr>"

definition text_response :: api_response where
  "text_response = \<lparr>response_keys = [''id'', ''status'', ''output_text'', ''usage''],
     status = ''completed'', output_text = Some ''Findings [1]'', output_items = None,
     top_text = None, top_content = None, usage = Some usage0\<rparr>"

definition blank_response :: api_response where
  "blank_response = \<lparr>response_keys = [''id'', ''status''],
     status = ''completed'', output_text = None,
     output_items = Some [Some \<lparr>output_type = ''message'',
        output_content = Some [Some \<lparr>item_type = ''output_text'', item_text = Text '' ''\<rparr>]\<rparr>],
     top_text = None, top_content = None, usage = Some usage0\<rparr>"

definition numeric_text_response :: api_response where
  \<comment> \<open>a completed response whose only content item carries the number 5 as its text\<close>
  "numeric_text_response = \<lparr>response_keys = [''id'', ''status'', ''output'', ''usage''],
     status = ''completed'', output_text = None,
     output_items = Some [Some \<lparr>output_type = ''message'',
        output_content = Some [Some \<lparr>item_type = ''output_text'', item_text = Not_text\<rparr>]\<rparr>],
     top_text = None, top_content = None, usage = Some usage0\<rparr>"

definition stalled_response :: api_response where
  "stalled_response = \<lparr>response_keys = [''id'', ''status''],
     status = ''incomplete'', output_text = None, output_items = Some [],
     top_text = None, top_content = None, usage = Some usage0\<rparr>"

definition answering :: "api_response \<Rightarrow> api" where
  \<comment> \<open>a service that answers every call with the same response\<close>
  "answering response = (\<lambda>modelName input. Inr response)"

definition config0 :: RateLimitConfig where
  "config0 = \<lparr>requests_per_hour = 10, requests_per_day = 50, tokens_per_day = 100000,
     daily_cost_limit_usd = 25, high_accuracy_daily_limit = 2, medium_accuracy_daily_limit = 15\<rparr>"

definition two_records :: "recorded list" where
  "two_records = [(High, 1 / 2, 1000, 1700000000000), (High, 1 / 10, 800, 1700000900000)]"

declare show_nat.simps [simp del]
declare bit_length.simps [simp del]


section \<open>Validation\<close>

lemma schema_keeps:
  assumes "DoDeepResearchSchema r = Inr v"
  shows "research_query v = research_query r" and "accuracy_level v = accuracy_level r"
    and "max_tokens v = max_tokens r" and "temperature v = temperature r"
  using assms by (auto simp: DoDeepResearchSchema_def Let_def split: if_splits)

lemma validate_cases:
  "validateResearchRequest r =
     (case DoDeepResearchSchema r of
        Inl es \<Rightarrow> Invalid es
      | Inr v \<Rightarrow> if business_rule_errors v \<noteq> [] then Invalid (business_rule_errors v)
                 else if content_safety_errors (research_query v) \<noteq> []
                      then Invalid (content_safety_errors (research_query v))
                      else Valid v)"
  by (simp add: validateResearchRequest_def validateBusinessRules_def validateContentSafety_def
      split: sum.splits)

lemma plain_valid: "validateResearchRequest plain_request = Valid plain_validated"
  by code_simp

lemma plain_sanitized:
  "sanitizeQuery (research_query plain_validated) = ''history of the metric system''"
  by code_simp

text \<open>
  Claim C1, as the code has it. A query that matches one of the injection patterns never
  validates. The three stages run in order and the first one that fails answers, so the
  error with code \<open>security\<close> is in the answer when the schema and the business rules
  have passed; a query that an earlier stage rejects carries that stage's errors.
\<close>

theorem injection_rejected:
  assumes "matches_dangerous (research_query r)"
  shows "\<not> isValid (validateResearchRequest r) \<and>
         (\<forall>v. DoDeepResearchSchema r = Inr v \<and> isValid (validateBusinessRules v) \<longrightarrow>
              security_error \<in> set (errors (validateResearchRequest r)))"
proof (cases "DoDeepResearchSchema r")
  case (Inl es)
  then show ?thesis by (simp add: validate_cases)
next
  case (Inr v)
  have q: "research_query v = research_query r" using Inr by (rule schema_keeps)
  have s: "content_safety_errors (research_query v) =
             security_error # tl (content_safety_errors (research_query v))"
    using assms by (simp add: content_safety_errors_def q)
  then have ne: "content_safety_errors (research_query v) \<noteq> []" by auto
  have mem: "security_error \<in> set (content_safety_errors (research_query v))"
    using s by (metis list.set_intros(1))
  show ?thesis using Inr ne mem
    by (auto simp: validate_cases validateBusinessRules_def split: if_splits)
qed

text \<open>The theorem at a query with an inline event handler, which passes the schema.\<close>

theorem injection_rejected_witness:
  "matches_dangerous (research_query onclick_request) \<and>
   \<not> isValid (validateResearchRequest onclick_request) \<and>
   security_error \<in> set (errors (validateResearchRequest onclick_request))"
proof -
  have h: "matches_dangerous (research_query onclick_request)" by code_simp
  have s: "DoDeepResearchSchema onclick_request =
             Inr (onclick_request\<lparr>include_sources := Some True,
                                  response_format := Some Comprehensive\<rparr>)"
    by code_simp
  have b: "isValid (validateBusinessRules
             (onclick_request\<lparr>include_sources := Some True,
                              response_format := Some Comprehensive\<rparr>))"
    by code_simp
  from injection_rejected [OF h] s b h show ?thesis by blast
qed

text \<open>
  Claim C1 as it is written fails at its own example: the query
  \<open><script>alert(1)</script>\<close> matches the script-tag pattern, and the schema, which
  refuses every \<open><\<close> and \<open>>\<close>, answers first with the code \<open>invalid_string\<close>; no error of
  the answer has the code \<open>security\<close>.
\<close>

theorem script_tag_not_security:
  "matches_dangerous (research_query script_request) \<and>
   validateResearchRequest script_request =
     Invalid [verr ''research_query'' ''Research query cannot contain HTML/XML tags''
                ''invalid_string''] \<and>
   ''security'' \<notin> set (map code (errors (validateResearchRequest script_request)))"
  by code_simp

text \<open>
  Claim C7. For a request that passes the schema, high accuracy with \<open>max_tokens\<close> below
  2000 fails validation with the business-rule error on \<open>max_tokens\<close>; high accuracy with
  \<open>max_tokens = 3000\<close> raises no such error, and passes the business rules when no
  temperature is given; high accuracy with a temperature above 0.5 fails validation with
  the business-rule error on \<open>temperature\<close>.
\<close>

theorem high_accuracy_rules:
  "(DoDeepResearchSchema r = Inr v \<and> accuracy_level r = High \<and> max_tokens r = Some m \<and>
    m < 2000 \<longrightarrow>
      \<not> isValid (validateResearchRequest r) \<and>
      max_tokens_rule_error \<in> set (errors (validateResearchRequest r))) \<and>
   (accuracy_level r = High \<and> max_tokens r = Some 3000 \<longrightarrow>
      max_tokens_rule_error \<notin> set (errors (validateBusinessRules r)) \<and>
      (temperature r = None \<longrightarrow> validateBusinessRules r = Valid r)) \<and>
   (DoDeepResearchSchema r = Inr v \<and> accuracy_level r = High \<and> temperature r = Some t \<and>
    t > 1 / 2 \<longrightarrow>
      \<not> isValid (validateResearchRequest r) \<and>
      temperature_rule_error \<in> set (errors (validateResearchRequest r)))"
proof (intro conjI impI)
  assume a: "DoDeepResearchSchema r = Inr v \<and> accuracy_level r = High \<and>
             max_tokens r = Some m \<and> m < 2000"
  then have "MaxTokensSchema (Some m) = []"
    by (auto simp: DoDeepResearchSchema_def Let_def split: if_splits)
  then have "m \<ge> 500" by (auto simp: MaxTokensSchema_def split: if_splits)
  then have e: "max_tokens_rule_error \<in> set (business_rule_errors v)"
    using a by (auto simp: business_rule_errors_def schema_keeps)
  then have "business_rule_errors v \<noteq> []" by auto
  then show "\<not> isValid (validateResearchRequest r)"
    and "max_tokens_rule_error \<in> set (errors (validateResearchRequest r))"
    using a e by (simp_all add: validate_cases)
next
  assume a: "accuracy_level r = High \<and> max_tokens r = Some 3000"
  then show "max_tokens_rule_error \<notin> set (errors (validateBusinessRules r))"
    by (auto simp: validateBusinessRules_def business_rule_errors_def max_tokens_rule_error_def
        temperature_rule_error_def verr_def split: option.splits)
  show "validateBusinessRules r = Valid r" if "temperature r = None"
    using a that by (simp add: validateBusinessRules_def business_rule_errors_def)
next
  assume a: "DoDeepResearchSchema r = Inr v \<and> accuracy_level r = High \<and>
             temperature r = Some t \<and> t > 1 / 2"
  then have e: "temperature_rule_error \<in> set (business_rule_errors v)"
    by (auto simp: business_rule_errors_def schema_keeps)
  then have "business_rule_errors v \<noteq> []" by auto
  then show "\<not> isValid (validateResearchRequest r)"
    and "temperature_rule_error \<in> set (errors (validateResearchRequest r))"
    using a e by (simp_all add: validate_cases)
qed

text \<open>
  The theorem at \<open>max_tokens = 1000\<close>, at \<open>max_tokens = 3000\<close> and at the temperature 0.7,
  each with high accuracy.
\<close>

theorem high_accuracy_rules_witness:
  "DoDeepResearchSchema (high_request (Some 1000) None) =
     Inr (high_request (Some 1000) None\<lparr>include_sources := Some True,
                                         response_format := Some Comprehensive\<rparr>) \<and>
   \<not> isValid (validateResearchRequest (high_request (Some 1000) None)) \<and>
   max_tokens_rule_error \<in> set (errors (validateResearchRequest (high_request (Some 1000) None))) \<and>
   validateBusinessRules (high_request (Some 3000) None) = Valid (high_request (Some 3000) None) \<and>
   DoDeepResearchSchema (high_request None (Some (7 / 10))) =
     Inr (high_request None (Some (7 / 10))\<lparr>include_sources := Some True,
                                             response_format := Some Comprehensive\<rparr>) \<and>
   \<not> isValid (validateResearchRequest (high_request None (Some (7 / 10)))) \<and>
   temperature_rule_error \<in> set (errors (validateResearchRequest (high_request None (Some (7 / 10)))))"
proof -
  have s1: "DoDeepResearchSchema (high_request (Some 1000) None) =
     Inr (high_request (Some 1000) None\<lparr>include_sources := Some True,
                                         response_format := Some Comprehensive\<rparr>)"
    by code_simp
  have s2: "DoDeepResearchSchema (high_request None (Some (7 / 10))) =
     Inr (high_request None (Some (7 / 10))\<lparr>include_sources := Some True,
                                             response_format := Some Comprehensive\<rparr>)"
    by code_simp
  have f1: "accuracy_level (high_request (Some 1000) None) = High"
    "max_tokens (high_request (Some 1000) None) = Some 1000" "(1000 :: rat) < 2000"
    by (simp_all add: high_request_def)
  have f2: "accuracy_level (high_request (Some 3000) None) = High"
    "max_tokens (high_request (Some 3000) None) = Some 3000"
    "temperature (high_request (Some 3000) None) = None"
    by (simp_all add: high_request_def)
  have f3: "accuracy_level (high_request None (Some (7 / 10))) = High"
    "temperature (high_request None (Some (7 / 10))) = Some (7 / 10)" "(7 / 10 :: rat) > 1 / 2"
    by (simp_all add: high_request_def)
  from high_accuracy_rules [of "high_request (Some 1000) None" _ 1000] s1 f1
  have c1: "\<not> isValid (validateResearchRequest (high_request (Some 1000) None)) \<and>
    max_tokens_rule_error \<in> set (errors (validateResearchRequest (high_request (Some 1000) None)))"
    by blast
  from high_accuracy_rules [of "high_request (Some 3000) None"] f2
  have c2: "validateBusinessRules (high_request (Some 3000) None) =
              Valid (high_request (Some 3000) None)"
    by blast
  from high_accuracy_rules [of "high_request None (Some (7 / 10))" _ _ "7 / 10"] s2 f3
  have c3: "\<not> isValid (validateResearchRequest (high_request None (Some (7 / 10)))) \<and>
    temperature_rule_error \<in> set (errors (validateResearchRequest (high_request None (Some (7 / 10)))))"
    by blast
  from s1 s2 c1 c2 c3 show ?thesis by blast
qed


section \<open>Sanitising\<close>

text \<open>
  Claim C2 fails on the code. One scan removes the occurrences of \<open>javascript:\<close> that it
  finds, and what is left of \<open>javajavascript:script:\<close> is \<open>javascript:\<close> again; a second
  run removes that too, so the second run changes the result of the first.
\<close>

theorem sanitizeQuery_not_idempotent:
  "sanitizeQuery ''javajavascript:script:'' = ''javascript:'' \<and>
   sanitizeQuery (sanitizeQuery ''javajavascript:script:'') = '''' \<and>
   sanitizeQuery (sanitizeQuery ''javajavascript:script:'') \<noteq>
     sanitizeQuery ''javajavascript:script:''"
  by code_simp


section \<open>The cost of a request\<close>

lemma fraction_pos: "0 < snd (fraction a)"
  by (simp add: fraction_def scaled_def)

lemma fraction_value:
  "double_value a = of_nat (fst (fraction a)) / of_nat (snd (fraction a))"
proof (cases "exponent a \<le> 0")
  case True
  then show ?thesis
    by (cases "exponent a = 0")
      (simp_all add: fraction_def scaled_def double_value_def power_int_def field_simps)
next
  case False
  then show ?thesis
    by (simp add: fraction_def scaled_def double_value_def power_int_def)
qed

lemma nearest_multiple:
  fixes p q K :: nat
  assumes "0 < q"
  shows "\<bar>(of_nat ((2 * p * K + q) div (2 * q)) :: rat) - of_nat p * of_nat K / of_nat q\<bar> \<le> 1 / 2"
proof -
  define n where "n = (2 * p * K + q) div (2 * q)"
  define r where "r = (2 * p * K + q) mod (2 * q)"
  define P Q N R :: rat where "P = of_nat (p * K)" and "Q = of_nat q" and "N = of_nat n"
    and "R = of_nat r"
  have "r < 2 * q" using assms by (simp add: r_def)
  then have "(of_nat r :: rat) < of_nat (2 * q)" by (simp only: of_nat_less_iff)
  then have r: "R < 2 * Q" by (simp add: R_def Q_def)
  have r0: "0 \<le> R" by (simp add: R_def)
  have q: "0 < Q" using assms by (simp add: Q_def)
  have "2 * p * K + q = 2 * q * n + r"
    by (simp add: n_def r_def)
  then have "(of_nat (2 * (p * K) + q) :: rat) = of_nat (2 * q * n + r)"
    by (simp add: mult.assoc)
  then have eq: "2 * P = 2 * Q * N + R - Q"
    by (simp add: P_def Q_def N_def R_def)
  have "P / Q = (2 * P) / (2 * Q)" by simp
  also have "\<dots> = (2 * Q * N + R - Q) / (2 * Q)" by (simp only: eq)
  also have "\<dots> = N + (R - Q) / (2 * Q)" using q by (simp add: field_simps)
  finally have pq: "P / Q = N + (R - Q) / (2 * Q)" .
  have "N - P / Q = - ((R - Q) / (2 * Q))" unfolding pq by simp
  also have "\<dots> = (Q - R) / (2 * Q)" by (simp add: minus_divide_left)
  finally have "N - P / Q = (Q - R) / (2 * Q)" .
  moreover have "\<bar>Q - R\<bar> \<le> Q" using r r0 by (simp add: abs_le_iff)
  ultimately have "\<bar>N - P / Q\<bar> \<le> Q / (2 * Q)"
    using q by (simp add: abs_divide divide_le_cancel)
  then have "\<bar>N - P / Q\<bar> \<le> 1 / 2" using q by simp
  then show ?thesis by (simp add: N_def P_def Q_def n_def)
qed

lemma fixed4_near:
  "\<bar>(of_nat (fixed4_digits a) :: rat) / 10 ^ 4 - double_value a\<bar> \<le> 1 / 20000"
proof -
  have "\<bar>(of_nat (fixed4_digits a) :: rat) -
          of_nat (fst (fraction a)) * of_nat (10 ^ 4) / of_nat (snd (fraction a))\<bar> \<le> 1 / 2"
    unfolding fixed4_digits_def by (rule nearest_multiple [OF fraction_pos])
  then have "\<bar>(of_nat (fixed4_digits a) :: rat) - double_value a * 10 ^ 4\<bar> \<le> 1 / 2"
    by (simp add: fraction_value)
  then have "\<bar>((of_nat (fixed4_digits a) :: rat) - double_value a * 10 ^ 4) / 10 ^ 4\<bar>
               \<le> (1 / 2) / 10 ^ 4"
    by (simp add: abs_divide divide_le_cancel del: of_nat_power)
  then show ?thesis by (simp add: field_simps)
qed

lemma below_threshold:
  "double_value a < 10 ^ 21 \<Longrightarrow> \<not> fst (fraction a) \<ge> 10 ^ 21 * snd (fraction a)"
proof
  assume v: "double_value a < 10 ^ 21" and g: "10 ^ 21 * snd (fraction a) \<le> fst (fraction a)"
  have q: "(0 :: rat) < of_nat (snd (fraction a))" using fraction_pos by simp
  from g have "(of_nat (10 ^ 21 * snd (fraction a)) :: rat) \<le> of_nat (fst (fraction a))"
    by (simp only: of_nat_le_iff)
  then have "(10 ^ 21 :: rat) * of_nat (snd (fraction a)) \<le> of_nat (fst (fraction a))"
    by simp
  then have "(10 ^ 21 :: rat) \<le> double_value a"
    using q by (simp add: fraction_value field_simps)
  with v show False by simp
qed

lemma bit_length_bounds: "0 < n \<Longrightarrow> n < 2 ^ bit_length n \<and> 2 ^ bit_length n \<le> 2 * n"
proof (induction n rule: bit_length.induct)
  case (1 n)
  show ?case
  proof (cases "n div 2 = 0")
    case True
    with "1.prems" have "n = 1" by (simp add: div_eq_0_iff) 
    then show ?thesis by (simp add: bit_length.simps)
  next
    case False
    then have pos: "0 < n div 2" by simp
    have ih: "n div 2 < 2 ^ bit_length (n div 2) \<and> 2 ^ bit_length (n div 2) \<le> 2 * (n div 2)"
      using "1.IH" "1.prems" pos by simp
    have b: "bit_length n = Suc (bit_length (n div 2))"
      using "1.prems" by (subst bit_length.simps) simp
    show ?thesis using ih unfolding b by (simp; linarith)
  qed
qed

lemma scaled_pos: "0 < q \<Longrightarrow> 0 < snd (scaled p q e)"
  by (simp add: scaled_def)

lemma scaled_value:
  assumes "0 < q"
  shows "(of_nat (fst (scaled p q e)) :: rat) / of_nat (snd (scaled p q e)) =
         of_nat p / of_nat q / 2 powi e"
  using assms by (simp add: scaled_def power_int_def field_simps)

lemma round_half_even_le:
  assumes "0 < q"
  shows "(of_nat (round_half_even p q) :: rat) \<le> of_nat p / of_nat q + 1"
proof -
  have "round_half_even p q \<le> p div q + 1"
    by (simp add: round_half_even_def Let_def)
  then have "(of_nat (round_half_even p q) :: rat) \<le> of_nat (p div q + 1)"
    by (simp only: of_nat_le_iff)
  moreover have "(of_nat (p div q) :: rat) \<le> of_nat p / of_nat q"
    using assms by (metis of_nat_0_less_iff of_nat_div_le_of_nat)
  ultimately show ?thesis by simp
qed



lemma round_half_even_ge:
  assumes "0 < q"
  shows "(of_nat p :: rat) / of_nat q - 1 \<le> of_nat (round_half_even p q)"
proof -
  have "p div q \<le> round_half_even p q"
    by (simp add: round_half_even_def Let_def)
  then have a: "(of_nat (p div q) :: rat) \<le> of_nat (round_half_even p q)"
    by (simp only: of_nat_le_iff)
  have "p = q * (p div q) + p mod q" by simp
  moreover have "p mod q < q" using assms by simp
  ultimately have "p < q * (p div q) + q" by linarith
  then have "(of_nat p :: rat) < of_nat (q * (p div q) + q)"
    by (simp only: of_nat_less_iff)
  then have "(of_nat p :: rat) < of_nat q * (of_nat (p div q) + 1)"
    by (simp add: algebra_simps)
  then have "(of_nat p :: rat) / of_nat q < of_nat (p div q) + 1"
    using assms by (simp add: field_simps)
  with a show ?thesis by simp
qed

lemma nearest_double_close:
  assumes "0 < q"
  shows "\<bar>double_value (nearest_double p q) - of_nat p / of_nat q\<bar> \<le> of_nat p / of_nat q / 2 ^ 51"
proof (cases "p = 0")
  case True
  then show ?thesis by (simp add: nearest_double_def double_value_def)
next
  case False
  then have p: "0 < p" by simp
  define e0 where "e0 = int (bit_length p) - int (bit_length q) - 53"
  define e where "e = (if fst (scaled p q e0) \<ge> 2 ^ 53 * snd (scaled p q e0) then e0 + 1 else e0)"
  define m where "m = round_half_even (fst (scaled p q e)) (snd (scaled p q e))"
  define x :: rat where "x = of_nat p / of_nat q"
  have nd: "nearest_double p q =
     (if m = 2 ^ 53 then \<lparr>mantissa = 2 ^ 52, exponent = e + 1\<rparr> else \<lparr>mantissa = m, exponent = e\<rparr>)"
    using False by (simp add: nearest_double_def Let_def e0_def e_def m_def)
  have val: "double_value (nearest_double p q) = of_nat m * 2 powi e"
  proof (cases "m = 2 ^ 53")
    case True
    have "(2 :: rat) powi (e + 1) = 2 powi e * 2" by (rule power_int_add_1) simp
    then show ?thesis using True by (simp add: nd double_value_def)
  next
    case False
    then show ?thesis by (simp add: nd double_value_def)
  qed
  have pw: "(0 :: rat) < 2 powi e" by simp
  have sv: "(of_nat (fst (scaled p q e)) :: rat) / of_nat (snd (scaled p q e)) = x / 2 powi e"
    by (simp add: scaled_value [OF assms] x_def)
  have "(of_nat m :: rat) \<le> of_nat (fst (scaled p q e)) / of_nat (snd (scaled p q e)) + 1"
    unfolding m_def by (rule round_half_even_le [OF scaled_pos [OF assms]])
  then have "(of_nat m :: rat) \<le> x / 2 powi e + 1"
    by (simp only: sv)
  then have "of_nat m * 2 powi e \<le> (x / 2 powi e + 1) * 2 powi e"
    using pw by (simp only: mult_le_cancel_right_pos)
  also have "\<dots> = x + 2 powi e" using pw by (simp add: field_simps)
  finally have hi: "double_value (nearest_double p q) \<le> x + 2 powi e" by (simp add: val)
  have "(of_nat (fst (scaled p q e)) :: rat) / of_nat (snd (scaled p q e)) - 1 \<le> of_nat m"
    unfolding m_def by (rule round_half_even_ge [OF scaled_pos [OF assms]])
  then have "x / 2 powi e - 1 \<le> (of_nat m :: rat)"
    by (simp only: sv)
  then have "(x / 2 powi e - 1) * 2 powi e \<le> of_nat m * 2 powi e"
    using pw by (simp only: mult_le_cancel_right_pos)
  moreover have "(x / 2 powi e - 1) * 2 powi e = x - 2 powi e" using pw by (simp add: field_simps)
  ultimately have lo: "x - 2 powi e \<le> double_value (nearest_double p q)" by (simp add: val)
  have "e \<le> e0 + 1" by (simp add: e_def)
  then have "(2 :: rat) powi e \<le> 2 powi (e0 + 1)" by (rule power_int_increasing) simp
  also have "(2 :: rat) powi (e0 + 1) =
             2 powi (int (bit_length p)) / 2 powi (int (bit_length q)) / 2 powi 52"
  proof -
    have eq: "e0 + 1 = int (bit_length p) - int (bit_length q) - 52" by (simp add: e0_def)
    have "(2 :: rat) powi (int (bit_length p) - int (bit_length q) - 52) =
          2 powi (int (bit_length p) - int (bit_length q)) / 2 powi 52"
      by (rule power_int_diff) simp
    also have "(2 :: rat) powi (int (bit_length p) - int (bit_length q)) =
          2 powi (int (bit_length p)) / 2 powi (int (bit_length q))"
      by (rule power_int_diff) simp
    finally show ?thesis by (simp only: eq)
  qed
  also have "\<dots> = 2 ^ bit_length p / 2 ^ bit_length q / 2 ^ 52"
    by (simp add: power_int_def)
  also have "\<dots> \<le> (2 * x) / 2 ^ 52"
  proof -
    have "2 ^ bit_length p \<le> 2 * p" and "q < 2 ^ bit_length q"
      using bit_length_bounds [OF p] bit_length_bounds [OF assms] by simp_all
    then have a: "(2 ^ bit_length p :: rat) \<le> 2 * of_nat p"
      and b: "(of_nat q :: rat) \<le> 2 ^ bit_length q"
      by (metis of_nat_le_iff of_nat_mult of_nat_numeral of_nat_power,
          metis less_imp_le of_nat_le_iff of_nat_numeral of_nat_power)
    have q: "(0 :: rat) < of_nat q" using assms by simp
    have "(2 ^ bit_length p :: rat) / 2 ^ bit_length q \<le> 2 * of_nat p / of_nat q"
      using a b q by (intro frac_le) simp_all
    then have "(2 ^ bit_length p :: rat) / 2 ^ bit_length q \<le> 2 * x" by (simp add: x_def)
    then show ?thesis by (simp add: divide_right_mono)
  qed
  finally have "(2 :: rat) powi e \<le> x / 2 ^ 51" by simp
  with hi lo have "double_value (nearest_double p q) - x \<le> x / 2 ^ 51"
    and "- (double_value (nearest_double p q) - x) \<le> x / 2 ^ 51"
    by linarith+
  then have "\<bar>double_value (nearest_double p q) - x\<bar> \<le> x / 2 ^ 51"
    by (rule abs_leI)
  then show ?thesis by (simp add: x_def)
qed

lemma close_bounds:
  fixes v x :: rat
  assumes "\<bar>v - x\<bar> \<le> x / 2 ^ 51"
  shows "x * (1 - 1 / 2 ^ 51) \<le> v" and "v \<le> x * (1 + 1 / 2 ^ 51)"
proof -
  define d where "d = x / 2 ^ 51"
  have e: "x * (1 - 1 / 2 ^ 51) = x - d" "x * (1 + 1 / 2 ^ 51) = x + d"
    by (simp_all add: d_def algebra_simps)
  from assms have "v - x \<le> d" and "- (v - x) \<le> d"
    unfolding d_def by (simp_all only: abs_le_iff)
  then show "x * (1 - 1 / 2 ^ 51) \<le> v" and "v \<le> x * (1 + 1 / 2 ^ 51)"
    unfolding e by linarith+
qed

lemma double_value_nonneg: "0 \<le> double_value a"
  by (simp add: double_value_def)

lemma double_div_close:
  assumes "0 < fst (fraction b)"
  shows "\<bar>double_value (double_div a b) - double_value a / double_value b\<bar> \<le>
         double_value a / double_value b / 2 ^ 51"
proof -
  have q: "0 < snd (fraction a) * fst (fraction b)"
    using assms fraction_pos [of a] by simp
  have eq: "(of_nat (fst (fraction a) * snd (fraction b)) :: rat) /
             of_nat (snd (fraction a) * fst (fraction b)) = double_value a / double_value b"
    by (simp add: fraction_value)
  show ?thesis
    using nearest_double_close [OF q, of "fst (fraction a) * snd (fraction b)"]
    unfolding double_div_def eq .
qed

lemma double_mult_close:
  "\<bar>double_value (double_mult a b) - double_value a * double_value b\<bar> \<le>
   double_value a * double_value b / 2 ^ 51"
proof -
  have q: "0 < snd (fraction a) * snd (fraction b)"
    using fraction_pos [of a] fraction_pos [of b] by simp
  have eq: "(of_nat (fst (fraction a) * fst (fraction b)) :: rat) /
             of_nat (snd (fraction a) * snd (fraction b)) = double_value a * double_value b"
    by (simp add: fraction_value)
  show ?thesis
    using nearest_double_close [OF q, of "fst (fraction a) * fst (fraction b)"]
    unfolding double_mult_def eq .
qed

lemmas double_eval = nearest_double_def scaled_def round_half_even_def fraction_def
  double_of_nat_def double_div_def double_mult_def fixed4_digits_def parseFloat_toFixed4_def
  Let_def bit_length.simps

lemma thousand_bits:
  "double_of_nat 1000 = \<lparr>mantissa = 8796093022208000, exponent = - 43\<rparr>"
  by (simp add: double_eval)

lemma thousand_value: "double_value (double_of_nat 1000) = 1000"
  by (simp add: fraction_value thousand_bits fraction_def scaled_def)

lemma thousand_fraction: "0 < fst (fraction (double_of_nat 1000))"
  by (simp add: thousand_bits fraction_def scaled_def)

lemma rate_close:
  "\<bar>double_value (costPerToken l) - decimal_rate l\<bar> \<le> decimal_rate l / 2 ^ 51"
proof (cases l)
  case High
  have "\<bar>double_value (nearest_double 2 100) - of_nat 2 / of_nat 100\<bar> \<le> of_nat 2 / of_nat 100 / 2 ^ 51"
    by (rule nearest_double_close) simp
  then show ?thesis by (simp add: costPerToken_def decimal_rate_def High)
next
  case Medium
  have "\<bar>double_value (nearest_double 6 1000) - of_nat 6 / of_nat 1000\<bar> \<le>
        of_nat 6 / of_nat 1000 / 2 ^ 51"
    by (rule nearest_double_close) simp
  then show ?thesis by (simp add: costPerToken_def decimal_rate_def Medium)
qed

lemma cost_estimate_between:
  defines "lo \<equiv> (1 - 1 / 2 ^ 51 :: rat)" and "hi \<equiv> (1 + 1 / 2 ^ 51 :: rat)"
  shows "of_nat (totalTokens usage_opt) / 1000 * decimal_rate l * lo ^ 4 \<le>
           double_value (cost_estimate l usage_opt) \<and>
         double_value (cost_estimate l usage_opt) \<le>
           of_nat (totalTokens usage_opt) / 1000 * decimal_rate l * hi ^ 4"
proof -
  define T :: rat where "T = of_nat (totalTokens usage_opt)"
  define a where "a = double_of_nat (totalTokens usage_opt)"
  define c where "c = double_div a (double_of_nat 1000)"
  define r where "r = decimal_rate l"
  define A C R D where "A = double_value a" and "C = double_value c"
    and "R = double_value (costPerToken l)" and "D = double_value (cost_estimate l usage_opt)"
  have lo: "0 \<le> lo" and hi: "0 \<le> hi" by (simp_all add: lo_def hi_def)
  have T: "0 \<le> T" by (simp add: T_def)
  have r: "0 \<le> r" by (cases l) (simp_all add: r_def decimal_rate_def)
  have "\<bar>A - of_nat (totalTokens usage_opt) / of_nat 1\<bar> \<le>
        of_nat (totalTokens usage_opt) / of_nat 1 / 2 ^ 51"
    unfolding A_def a_def double_of_nat_def by (rule nearest_double_close) simp
  then have "\<bar>A - T\<bar> \<le> T / 2 ^ 51" by (simp add: T_def)
  then have A: "T * lo \<le> A" "A \<le> T * hi"
    unfolding lo_def hi_def by (rule close_bounds)+
  have "\<bar>C - A / double_value (double_of_nat 1000)\<bar> \<le> A / double_value (double_of_nat 1000) / 2 ^ 51"
    unfolding C_def c_def A_def by (rule double_div_close [OF thousand_fraction])
  then have "\<bar>C - A / 1000\<bar> \<le> A / 1000 / 2 ^ 51" by (simp add: thousand_value)
  then have C0: "A / 1000 * lo \<le> C" "C \<le> A / 1000 * hi"
    unfolding lo_def hi_def by (rule close_bounds)+
  have "T * lo / 1000 * lo \<le> A / 1000 * lo"
    using A(1) lo by (intro mult_right_mono divide_right_mono) simp_all
  with C0(1) have C1: "T / 1000 * lo ^ 2 \<le> C" by (simp add: power2_eq_square)
  have "A / 1000 * hi \<le> T * hi / 1000 * hi"
    using A(2) hi by (intro mult_right_mono divide_right_mono) simp_all
  with C0(2) have C2: "C \<le> T / 1000 * hi ^ 2" by (simp add: power2_eq_square)
  have "\<bar>R - r\<bar> \<le> r / 2 ^ 51" unfolding R_def r_def by (rule rate_close)
  then have R: "r * lo \<le> R" "R \<le> r * hi"
    unfolding lo_def hi_def by (rule close_bounds)+
  have C: "0 \<le> C" and R0: "0 \<le> R" by (simp_all add: C_def R_def double_value_nonneg)
  have D: "D = double_value (double_mult c (costPerToken l))"
    by (simp add: D_def cost_estimate_def c_def a_def)
  have "\<bar>D - C * R\<bar> \<le> C * R / 2 ^ 51"
    unfolding D C_def R_def by (rule double_mult_close)
  then have D0: "C * R * lo \<le> D" "D \<le> C * R * hi"
    unfolding lo_def hi_def by (rule close_bounds)+
  have rl: "0 \<le> r * lo" using r lo by simp
  have th: "0 \<le> T / 1000 * hi ^ 2" using T by simp
  have "(T / 1000 * lo ^ 2) * (r * lo) \<le> C * R"
    by (rule mult_mono [OF C1 R(1) C rl])
  then have "(T / 1000 * lo ^ 2) * (r * lo) * lo \<le> C * R * lo"
    using lo by (rule mult_right_mono)
  with D0(1) have l1: "(T / 1000 * lo ^ 2) * (r * lo) * lo \<le> D" by linarith
  have eq_lo: "(T / 1000 * lo ^ 2) * (r * lo) * lo = T / 1000 * r * lo ^ 4"
    by (simp add: power2_eq_square power4_eq_xxxx)
  from l1 have low: "T / 1000 * r * lo ^ 4 \<le> D" unfolding eq_lo .
  have "C * R \<le> (T / 1000 * hi ^ 2) * (r * hi)"
    by (rule mult_mono [OF C2 R(2) th R0])
  then have "C * R * hi \<le> (T / 1000 * hi ^ 2) * (r * hi) * hi"
    using hi by (rule mult_right_mono)
  with D0(2) have h1: "D \<le> (T / 1000 * hi ^ 2) * (r * hi) * hi" by linarith
  have eq_hi: "(T / 1000 * hi ^ 2) * (r * hi) * hi = T / 1000 * r * hi ^ 4"
    by (simp add: power2_eq_square power4_eq_xxxx)
  from h1 have high: "D \<le> T / 1000 * r * hi ^ 4" unfolding eq_hi .
  from low high show ?thesis unfolding T_def r_def D_def by (rule conjI)
qed


lemma four_roundings:
  "(1 + 1 / 2 ^ 51 :: rat) ^ 4 \<le> 1 + 1 / 2 ^ 48" "1 - 1 / 2 ^ 48 \<le> (1 - 1 / 2 ^ 51 :: rat) ^ 4"
  by (simp_all add: power4_eq_xxxx)

lemma cost_estimate_near:
  assumes "totalTokens usage_opt \<le> 2 ^ 40"
  shows "\<bar>double_value (cost_estimate l usage_opt) -
          of_nat (totalTokens usage_opt) / 1000 * decimal_rate l\<bar> \<le> 1 / 10240000"
proof -
  define x :: rat where "x = of_nat (totalTokens usage_opt) / 1000 * decimal_rate l"
  define D where "D = double_value (cost_estimate l usage_opt)"
  have "(of_nat (totalTokens usage_opt) :: rat) \<le> of_nat (2 ^ 40)"
    using assms by (simp only: of_nat_le_iff)
  then have T: "(of_nat (totalTokens usage_opt) :: rat) \<le> 2 ^ 40" by simp
  have r: "0 \<le> decimal_rate l" "decimal_rate l \<le> 1 / 50"
    by (cases l; simp add: decimal_rate_def)+
  have x0: "0 \<le> x" using r by (simp add: x_def)
  have "of_nat (totalTokens usage_opt) / 1000 * decimal_rate l \<le> 2 ^ 40 / 1000 * (1 / 50)"
    using T r by (intro mult_mono divide_right_mono) simp_all
  then have x: "x \<le> 2 ^ 40 / 50000" by (simp add: x_def)
  have b: "x * (1 - 1 / 2 ^ 51) ^ 4 \<le> D" "D \<le> x * (1 + 1 / 2 ^ 51) ^ 4"
    using cost_estimate_between [of usage_opt l] by (simp_all add: x_def D_def)
  have "x * (1 + 1 / 2 ^ 51) ^ 4 \<le> x * (1 + 1 / 2 ^ 48)"
    using x0 four_roundings(1) by (rule mult_left_mono [rotated])
  with b(2) have hi: "D \<le> x + x / 2 ^ 48" by (simp add: algebra_simps)
  have "x * (1 - 1 / 2 ^ 48) \<le> x * (1 - 1 / 2 ^ 51) ^ 4"
    using x0 four_roundings(2) by (rule mult_left_mono [rotated])
  with b(1) have lo: "x - x / 2 ^ 48 \<le> D" by (simp add: algebra_simps)
  have "x / 2 ^ 48 \<le> 1 / 10240000" using x by simp
  with hi lo have "D - x \<le> 1 / 10240000" and "- (D - x) \<le> 1 / 10240000" by linarith+
  then have "\<bar>D - x\<bar> \<le> 1 / 10240000" by (rule abs_leI)
  then show ?thesis by (simp only: D_def x_def)
qed

lemma digits_near:
  assumes "totalTokens usage_opt \<le> 2 ^ 40"
  shows "\<bar>of_nat (fixed4_digits (cost_estimate l usage_opt)) -
          10 * of_nat (totalTokens usage_opt) * decimal_rate l\<bar> \<le> (1 / 2 + 1 / 1024 :: rat)"
proof -
  define x :: rat where "x = of_nat (totalTokens usage_opt) / 1000 * decimal_rate l"
  define D where "D = double_value (cost_estimate l usage_opt)"
  define N :: rat where "N = of_nat (fixed4_digits (cost_estimate l usage_opt))"
  have a: "\<bar>N / 10 ^ 4 - D\<bar> \<le> 1 / 20000"
    unfolding N_def D_def by (rule fixed4_near)
  have b: "\<bar>D - x\<bar> \<le> 1 / 10240000"
    unfolding D_def x_def by (rule cost_estimate_near [OF assms])
  from a b have "N / 10 ^ 4 - x \<le> 1 / 20000 + 1 / 10240000"
    and "- (N / 10 ^ 4 - x) \<le> 1 / 20000 + 1 / 10240000"
    by linarith+
  then have "N - 10 ^ 4 * x \<le> 1 / 2 + 1 / 1024" and "- (N - 10 ^ 4 * x) \<le> 1 / 2 + 1 / 1024"
    by (simp_all add: field_simps)
  then have "\<bar>N - 10 ^ 4 * x\<bar> \<le> 1 / 2 + 1 / 1024" by (rule abs_leI)
  moreover have "10 ^ 4 * x = 10 * of_nat (totalTokens usage_opt) * decimal_rate l"
    by (simp add: x_def)
  ultimately show ?thesis by (simp only: N_def)
qed

lemma high_digits:
  assumes "totalTokens usage_opt \<le> 2 ^ 40"
  shows "fixed4_digits (cost_estimate High usage_opt) = (totalTokens usage_opt + 2) div 5"
proof -
  define n where "n = fixed4_digits (cost_estimate High usage_opt)"
  define t where "t = totalTokens usage_opt"
  have "\<bar>(of_nat n :: rat) - 10 * of_nat t * (2 / 100)\<bar> \<le> 1 / 2 + 1 / 1024"
    using digits_near [OF assms, of High] by (simp add: n_def t_def decimal_rate_def)
  then have "5 * (of_nat n :: rat) - of_nat t < 3" and "of_nat t - 5 * (of_nat n :: rat) < 3"
    by linarith+
  then have "(of_int (5 * int n - int t) :: rat) < of_int 3"
    and "(of_int (int t - 5 * int n) :: rat) < of_int 3"
    by simp_all
  then have "5 * int n - int t < 3" and "int t - 5 * int n < 3"
    by (simp_all only: of_int_less_iff)
  then show ?thesis unfolding n_def [symmetric] t_def [symmetric] by arith
qed

lemma medium_digits:
  assumes "totalTokens usage_opt \<le> 2 ^ 40"
  shows "\<bar>50 * int (fixed4_digits (cost_estimate Medium usage_opt)) -
          3 * int (totalTokens usage_opt)\<bar> \<le> 25"
proof -
  define n where "n = fixed4_digits (cost_estimate Medium usage_opt)"
  define t where "t = totalTokens usage_opt"
  have "\<bar>(of_nat n :: rat) - 10 * of_nat t * (6 / 1000)\<bar> \<le> 1 / 2 + 1 / 1024"
    using digits_near [OF assms, of Medium] by (simp add: n_def t_def decimal_rate_def)
  then have "50 * (of_nat n :: rat) - 3 * of_nat t < 26" and "3 * of_nat t - 50 * (of_nat n :: rat) < 26"
    by linarith+
  then have "(of_int (50 * int n - 3 * int t) :: rat) < of_int 26"
    and "(of_int (3 * int t - 50 * int n) :: rat) < of_int 26"
    by simp_all
  then have "50 * int n - 3 * int t < 26" and "3 * int t - 50 * int n < 26"
    by (simp_all only: of_int_less_iff)
  then show ?thesis unfolding n_def [symmetric] t_def [symmetric] by arith
qed


lemma cost_estimate_small:
  assumes "totalTokens usage_opt \<le> 2 ^ 40"
  shows "double_value (cost_estimate l usage_opt) < 10 ^ 21"
proof -
  define x :: rat where "x = of_nat (totalTokens usage_opt) / 1000 * decimal_rate l"
  have "(of_nat (totalTokens usage_opt) :: rat) \<le> of_nat (2 ^ 40)"
    using assms by (simp only: of_nat_le_iff)
  then have T: "(of_nat (totalTokens usage_opt) :: rat) \<le> 2 ^ 40" by simp
  have r: "0 \<le> decimal_rate l" "decimal_rate l \<le> 1 / 50"
    by (cases l; simp add: decimal_rate_def)+
  have "of_nat (totalTokens usage_opt) / 1000 * decimal_rate l \<le> 2 ^ 40 / 1000 * (1 / 50)"
    using T r by (intro mult_mono divide_right_mono) simp_all
  then have x: "x \<le> 2 ^ 40 / 50000" by (simp add: x_def)
  have "\<bar>double_value (cost_estimate l usage_opt) - x\<bar> \<le> 1 / 10240000"
    unfolding x_def by (rule cost_estimate_near [OF assms])
  then have "double_value (cost_estimate l usage_opt) \<le> x + 1 / 10240000" by linarith
  also have "\<dots> \<le> 2 ^ 40 / 50000 + 1 / 10240000" using x by simp
  also have "\<dots> < 10 ^ 21" by simp
  finally show ?thesis .
qed

lemma rounded_to_digits:
  assumes "totalTokens usage_opt \<le> 2 ^ 40"
  shows "estimated_cost_usd (calculateCosts l usage_opt) =
           nearest_double (fixed4_digits (cost_estimate l usage_opt)) (10 ^ 4)"
  using below_threshold [OF cost_estimate_small [OF assms, of l]]
  by (simp add: calculateCosts_def parseFloat_toFixed4_def)

lemma int_bound_to_rat:
  fixes a b c :: int
  assumes "\<bar>a - b\<bar> \<le> c"
  shows "\<bar>(of_int a :: rat) - of_int b\<bar> \<le> of_int c"
proof -
  from assms have "(of_int \<bar>a - b\<bar> :: rat) \<le> of_int c" by (simp only: of_int_le_iff)
  then show ?thesis by simp
qed

lemma digits_exact:
  assumes "totalTokens usage_opt \<le> 2 ^ 40"
  shows "\<bar>of_nat (fixed4_digits (cost_estimate l usage_opt)) / 10 ^ 4 -
          exact_cost l (totalTokens usage_opt)\<bar> \<le> 1 / 20000"
proof (cases l)
  case High
  define n where "n = fixed4_digits (cost_estimate High usage_opt)"
  define t where "t = totalTokens usage_opt"
  have "n = (t + 2) div 5" unfolding n_def t_def by (rule high_digits [OF assms])
  then have "\<bar>5 * int n - int t\<bar> \<le> 2" by arith
  then have "\<bar>(of_int (5 * int n) :: rat) - of_int (int t)\<bar> \<le> of_int 2"
    by (rule int_bound_to_rat)
  then have "\<bar>5 * (of_nat n :: rat) - of_nat t\<bar> \<le> 2" by simp
  then have "5 * (of_nat n :: rat) - of_nat t \<le> 2" and "of_nat t - 5 * (of_nat n :: rat) \<le> 2"
    by linarith+
  then have "of_nat n / 10 ^ 4 - of_nat t / 1000 * (2 / 100 :: rat) \<le> 1 / 20000"
    and "- (of_nat n / 10 ^ 4 - of_nat t / 1000 * (2 / 100 :: rat)) \<le> 1 / 20000"
    by simp_all
  then have "\<bar>of_nat n / 10 ^ 4 - of_nat t / 1000 * (2 / 100 :: rat)\<bar> \<le> 1 / 20000"
    by (rule abs_leI)
  then show ?thesis
    by (simp only: High n_def t_def exact_cost_def decimal_rate_def accuracy.case)
next
  case Medium
  define n where "n = fixed4_digits (cost_estimate Medium usage_opt)"
  define t where "t = totalTokens usage_opt"
  have "\<bar>50 * int n - 3 * int t\<bar> \<le> 25" unfolding n_def t_def by (rule medium_digits [OF assms])
  then have "\<bar>(of_int (50 * int n) :: rat) - of_int (3 * int t)\<bar> \<le> of_int 25"
    by (rule int_bound_to_rat)
  then have "\<bar>50 * (of_nat n :: rat) - 3 * of_nat t\<bar> \<le> 25" by simp
  then have "50 * (of_nat n :: rat) - 3 * of_nat t \<le> 25"
    and "3 * of_nat t - 50 * (of_nat n :: rat) \<le> 25"
    by linarith+
  then have "of_nat n / 10 ^ 4 - of_nat t / 1000 * (6 / 1000 :: rat) \<le> 1 / 20000"
    and "- (of_nat n / 10 ^ 4 - of_nat t / 1000 * (6 / 1000 :: rat)) \<le> 1 / 20000"
    by simp_all
  then have "\<bar>of_nat n / 10 ^ 4 - of_nat t / 1000 * (6 / 1000 :: rat)\<bar> \<le> 1 / 20000"
    by (rule abs_leI)
  then show ?thesis
    by (simp only: Medium n_def t_def exact_cost_def decimal_rate_def accuracy.case)
qed

lemma medium_digits_no_tie:
  assumes "totalTokens usage_opt \<le> 2 ^ 40" and "3 * totalTokens usage_opt mod 50 \<noteq> 25"
  shows "fixed4_digits (cost_estimate Medium usage_opt) = (3 * totalTokens usage_opt + 25) div 50"
proof -
  define n where "n = fixed4_digits (cost_estimate Medium usage_opt)"
  define t where "t = totalTokens usage_opt"
  define k where "k = 3 * t + 25"
  have "\<bar>50 * int n - 3 * int t\<bar> \<le> 25"
    unfolding n_def t_def by (rule medium_digits [OF assms(1)])
  then have a: "50 * n \<le> k" "k \<le> 50 * n + 50" by (simp_all add: k_def abs_le_iff)
  have "k \<noteq> 50 * n + 50"
  proof
    assume "k = 50 * n + 50"
    then have "3 * t = 50 * n + 25" by (simp add: k_def)
    then have "3 * t mod 50 = 25" by simp
    with assms(2) show False by (simp add: t_def)
  qed
  with a(2) have b: "k < 50 * Suc n" by simp
  have "k div 50 = n"
    using a(1) b by (rule div_nat_eqI)
  then show ?thesis by (simp add: k_def n_def t_def)
qed

lemma result_value_close:
  "\<bar>double_value (nearest_double n (10 ^ 4)) - of_nat n / 10 ^ 4\<bar> \<le> of_nat n / 10 ^ 4 / 2 ^ 51"
  using nearest_double_close [of "10 ^ 4" n] by simp

lemma medium_rate_bits:
  "nearest_double 6 1000 = \<lparr>mantissa = 6917529027641082, exponent = - 60\<rparr>"
  by (simp add: double_eval)

lemma five_bits:
  "double_div (double_of_nat 5000) (double_of_nat 1000) =
     \<lparr>mantissa = 5629499534213120, exponent = - 50\<rparr>"
  by (simp add: double_eval)

lemma product_bits:
  "double_mult \<lparr>mantissa = 5629499534213120, exponent = - 50\<rparr>
               \<lparr>mantissa = 6917529027641082, exponent = - 60\<rparr> =
     \<lparr>mantissa = 8646911284551352, exponent = - 58\<rparr>"
  by (simp add: double_eval)

lemma digits_bits:
  "fixed4_digits \<lparr>mantissa = 8646911284551352, exponent = - 58\<rparr> = 300"
  by (simp add: double_eval)

lemma fixed_bits:
  "parseFloat_toFixed4 \<lparr>mantissa = 8646911284551352, exponent = - 58\<rparr> =
     \<lparr>mantissa = 8646911284551352, exponent = - 58\<rparr>"
  by (simp add: double_eval)

lemma three_hundredths_bits:
  "nearest_double 3 100 = \<lparr>mantissa = 8646911284551352, exponent = - 58\<rparr>"
  by (simp add: double_eval)

lemma cost_estimate_5000:
  assumes "total_tokens u = 5000"
  shows "cost_estimate Medium (Some u) = \<lparr>mantissa = 8646911284551352, exponent = - 58\<rparr>"
  unfolding cost_estimate_def costPerToken_def totalTokens_def
  by (simp only: assms option.case accuracy.case medium_rate_bits five_bits product_bits)

lemma cost_5000_medium:
  assumes "total_tokens u = 5000"
  shows "estimated_cost_usd (calculateCosts Medium (Some u)) = nearest_double 3 100"
  by (simp only: cost_estimate_5000 [OF assms] calculateCosts_def cost_info.simps
      fixed_bits three_hundredths_bits)

text \<open>
  Claim C5. \<open>calculateCosts\<close> returns the billing tier \<open>premium\<close> for high and \<open>standard\<close>
  for medium accuracy, and as \<open>cost_per_1k_tokens\<close> the double nearest to 0.02 for high and
  to 0.006 for medium, each within the relative error \<open>2 ^ -51\<close> of that decimal number.
  The token count is \<open>total_tokens\<close> of the usage and 0 without a usage. For a token count
  up to \<open>2 ^ 40\<close> the \<open>estimated_cost_usd\<close> is \<open>(total_tokens / 1000) * rate\<close> rounded to four
  decimals: the double nearest to a decimal number \<open>n / 10 ^ 4\<close> that lies within half a
  unit of the fourth decimal of the exact product of the token count by the decimal rate,
  and within the relative error \<open>2 ^ -51\<close> of it. At high accuracy \<open>n\<close> is
  \<open>(total_tokens + 2) div 5\<close>; at medium accuracy \<open>n\<close> is \<open>(3 * total_tokens + 25) div 50\<close>
  unless the exact product lies halfway between two such decimals. For 5000 tokens at
  medium accuracy the cost is the double of \<open>0.0300\<close>.
\<close>

theorem cost_computation:
  "billing_tier (calculateCosts High usage_opt) = ''premium'' \<and>
   billing_tier (calculateCosts Medium usage_opt) = ''standard'' \<and>
   cost_per_1k_tokens (calculateCosts High usage_opt) = nearest_double 2 100 \<and>
   cost_per_1k_tokens (calculateCosts Medium usage_opt) = nearest_double 6 1000 \<and>
   \<bar>double_value (cost_per_1k_tokens (calculateCosts accuracyLevel usage_opt)) -
      decimal_rate accuracyLevel\<bar> \<le> decimal_rate accuracyLevel / 2 ^ 51 \<and>
   totalTokens None = 0 \<and>
   totalTokens (Some u) = total_tokens u \<and>
   (totalTokens usage_opt \<le> 2 ^ 40 \<longrightarrow>
      (\<exists>n. estimated_cost_usd (calculateCosts accuracyLevel usage_opt) =
             nearest_double n (10 ^ 4) \<and>
           \<bar>of_nat n / 10 ^ 4 - exact_cost accuracyLevel (totalTokens usage_opt)\<bar>
             \<le> 1 / 20000 \<and>
           \<bar>double_value (estimated_cost_usd (calculateCosts accuracyLevel usage_opt)) -
              of_nat n / 10 ^ 4\<bar> \<le> of_nat n / 10 ^ 4 / 2 ^ 51) \<and>
      estimated_cost_usd (calculateCosts High usage_opt) =
        nearest_double ((totalTokens usage_opt + 2) div 5) (10 ^ 4) \<and>
      (3 * totalTokens usage_opt mod 50 \<noteq> 25 \<longrightarrow>
         estimated_cost_usd (calculateCosts Medium usage_opt) =
           nearest_double ((3 * totalTokens usage_opt + 25) div 50) (10 ^ 4))) \<and>
   (total_tokens u = 5000 \<longrightarrow>
      estimated_cost_usd (calculateCosts Medium (Some u)) = nearest_double 3 100)"
proof -
  have tier: "billing_tier (calculateCosts High usage_opt) = ''premium''"
    "billing_tier (calculateCosts Medium usage_opt) = ''standard''"
    by (simp_all add: calculateCosts_def)
  have rate: "cost_per_1k_tokens (calculateCosts High usage_opt) = nearest_double 2 100"
    "cost_per_1k_tokens (calculateCosts Medium usage_opt) = nearest_double 6 1000"
    by (simp_all add: calculateCosts_def costPerToken_def)
  have "cost_per_1k_tokens (calculateCosts accuracyLevel usage_opt) = costPerToken accuracyLevel"
    by (simp add: calculateCosts_def)
  then have close: "\<bar>double_value (cost_per_1k_tokens (calculateCosts accuracyLevel usage_opt)) -
      decimal_rate accuracyLevel\<bar> \<le> decimal_rate accuracyLevel / 2 ^ 51"
    using rate_close [of accuracyLevel] by simp
  have tokens: "totalTokens None = 0" "totalTokens (Some u) = total_tokens u"
    by (simp_all add: totalTokens_def)
  have general: "\<exists>n. estimated_cost_usd (calculateCosts accuracyLevel usage_opt) =
             nearest_double n (10 ^ 4) \<and>
           \<bar>of_nat n / 10 ^ 4 - exact_cost accuracyLevel (totalTokens usage_opt)\<bar>
             \<le> 1 / 20000 \<and>
           \<bar>double_value (estimated_cost_usd (calculateCosts accuracyLevel usage_opt)) -
              of_nat n / 10 ^ 4\<bar> \<le> of_nat n / 10 ^ 4 / 2 ^ 51"
    if t: "totalTokens usage_opt \<le> 2 ^ 40"
  proof -
    define n where "n = fixed4_digits (cost_estimate accuracyLevel usage_opt)"
    have e: "estimated_cost_usd (calculateCosts accuracyLevel usage_opt) = nearest_double n (10 ^ 4)"
      unfolding n_def by (rule rounded_to_digits [OF t])
    have d: "\<bar>of_nat n / 10 ^ 4 - exact_cost accuracyLevel (totalTokens usage_opt)\<bar> \<le> 1 / 20000"
      unfolding n_def by (rule digits_exact [OF t])
    have v: "\<bar>double_value (estimated_cost_usd (calculateCosts accuracyLevel usage_opt)) -
              of_nat n / 10 ^ 4\<bar> \<le> of_nat n / 10 ^ 4 / 2 ^ 51"
      unfolding e by (rule result_value_close)
    from e d v show ?thesis by blast
  qed
  have high: "estimated_cost_usd (calculateCosts High usage_opt) =
        nearest_double ((totalTokens usage_opt + 2) div 5) (10 ^ 4)"
    if t: "totalTokens usage_opt \<le> 2 ^ 40"
    by (simp only: rounded_to_digits [OF t] high_digits [OF t])
  have medium: "estimated_cost_usd (calculateCosts Medium usage_opt) =
           nearest_double ((3 * totalTokens usage_opt + 25) div 50) (10 ^ 4)"
    if t: "totalTokens usage_opt \<le> 2 ^ 40" and m: "3 * totalTokens usage_opt mod 50 \<noteq> 25"
    by (simp only: rounded_to_digits [OF t] medium_digits_no_tie [OF t m])
  have example: "estimated_cost_usd (calculateCosts Medium (Some u)) = nearest_double 3 100"
    if "total_tokens u = 5000"
    using that by (rule cost_5000_medium)
  show ?thesis
    by (intro conjI impI;
        (rule tier rate close tokens | erule general | erule high | erule (1) medium | erule example))
qed

text \<open>
  The theorem at a usage of 5000 tokens: the cost is the double of \<open>0.1000\<close> at high and
  of \<open>0.0300\<close> at medium accuracy.
\<close>

theorem cost_computation_witness:
  "totalTokens (Some usage0) \<le> 2 ^ 40 \<and>
   3 * totalTokens (Some usage0) mod 50 \<noteq> 25 \<and>
   total_tokens usage0 = 5000 \<and>
   billing_tier (calculateCosts High (Some usage0)) = ''premium'' \<and>
   billing_tier (calculateCosts Medium (Some usage0)) = ''standard'' \<and>
   estimated_cost_usd (calculateCosts High (Some usage0)) = nearest_double 1000 (10 ^ 4) \<and>
   estimated_cost_usd (calculateCosts Medium (Some usage0)) = nearest_double 300 (10 ^ 4) \<and>
   estimated_cost_usd (calculateCosts Medium (Some usage0)) = nearest_double 3 100"
proof -
  have t: "total_tokens usage0 = 5000" by (simp add: usage0_def)
  have v: "totalTokens (Some usage0) \<le> 2 ^ 40" by (simp add: totalTokens_def usage0_def)
  have m: "3 * totalTokens (Some usage0) mod 50 \<noteq> 25" by (simp add: totalTokens_def usage0_def)
  have h5: "(totalTokens (Some usage0) + 2) div 5 = 1000" by (simp add: totalTokens_def usage0_def)
  have m5: "(3 * totalTokens (Some usage0) + 25) div 50 = 300"
    by (simp add: totalTokens_def usage0_def)
  note c = cost_computation [where usage_opt = "Some usage0" and u = usage0 and accuracyLevel = Medium]
  have b: "billing_tier (calculateCosts High (Some usage0)) = ''premium''"
    "billing_tier (calculateCosts Medium (Some usage0)) = ''standard''"
    using c by blast+
  have "estimated_cost_usd (calculateCosts High (Some usage0)) =
     nearest_double ((totalTokens (Some usage0) + 2) div 5) (10 ^ 4)"
    using c v by blast
  then have h: "estimated_cost_usd (calculateCosts High (Some usage0)) = nearest_double 1000 (10 ^ 4)"
    by (simp only: h5)
  have "estimated_cost_usd (calculateCosts Medium (Some usage0)) =
     nearest_double ((3 * totalTokens (Some usage0) + 25) div 50) (10 ^ 4)"
    using c v m by blast
  then have e: "estimated_cost_usd (calculateCosts Medium (Some usage0)) = nearest_double 300 (10 ^ 4)"
    by (simp only: m5)
  have f: "estimated_cost_usd (calculateCosts Medium (Some usage0)) = nearest_double 3 100"
    using c t by blast
  show ?thesis using v m t b h e f by blast
qed


section \<open>The client and the handler\<close>

lemma handler_invalid:
  "validateResearchRequest r = Invalid es \<Longrightarrow>
   handleDeepResearchRequest clk openai r =
     (Failure \<lparr>f_error = validation_message es, f_error_type = ''validation_error'',
               f_request_id = make_request_id clk, f_timestamp = None\<rparr>, [])"
  by (simp add: handleDeepResearchRequest_def)

lemma request_id0: "make_request_id clock0 = ''req_1700000000000_k3x9q2m1z''"
  by (simp add: make_request_id_def clock0_def digit_char_def show_nat.simps)

text \<open>
  Claim C4. A request that fails validation is answered with the failure envelope
  \<open>{success: false, error, error_type: 'validation_error', request_id}\<close>, and the run
  contains no call of the research client, none of the external service and none of the
  rate limiter.
\<close>

theorem rejected_request_never_reaches_client:
  assumes "\<not> isValid (validateResearchRequest r)"
  shows "fst (handleDeepResearchRequest clk openai r) =
           Failure \<lparr>f_error = validation_message (errors (validateResearchRequest r)),
                    f_error_type = ''validation_error'',
                    f_request_id = make_request_id clk, f_timestamp = None\<rparr> \<and>
         \<not> success (fst (handleDeepResearchRequest clk openai r)) \<and>
         filter is_client_call (snd (handleDeepResearchRequest clk openai r)) = [] \<and>
         filter is_api_call (snd (handleDeepResearchRequest clk openai r)) = [] \<and>
         filter is_rate_limiter_call (snd (handleDeepResearchRequest clk openai r)) = []"
proof -
  obtain es where es: "validateResearchRequest r = Invalid es"
    using assms by (cases "validateResearchRequest r") auto
  show ?thesis by (simp add: handler_invalid [OF es] es)
qed

text \<open>The theorem at a query of five characters.\<close>

theorem rejected_request_witness:
  "\<not> isValid (validateResearchRequest short_request) \<and>
   fst (handleDeepResearchRequest clock0 (answering text_response) short_request) =
     Failure \<lparr>f_error = ''Request validation failed: research_query: Research query must be at least 10 characters, research_query: Research query must contain meaningful content'',
              f_error_type = ''validation_error'',
              f_request_id = ''req_1700000000000_k3x9q2m1z'', f_timestamp = None\<rparr> \<and>
   filter is_client_call
     (snd (handleDeepResearchRequest clock0 (answering text_response) short_request)) = [] \<and>
   filter is_api_call
     (snd (handleDeepResearchRequest clock0 (answering text_response) short_request)) = []"
proof -
  have v: "validateResearchRequest short_request =
     Invalid [verr ''research_query'' ''Research query must be at least 10 characters'' ''too_small'',
              verr ''research_query'' ''Research query must contain meaningful content'' ''custom'']"
    by code_simp
  then have h: "\<not> isValid (validateResearchRequest short_request)" by simp
  have m: "validation_message (errors (validateResearchRequest short_request)) =
     ''Request validation failed: research_query: Research query must be at least 10 characters, research_query: Research query must contain meaningful content''"
    unfolding v by (simp add: validation_message_def verr_def)
  from rejected_request_never_reaches_client [OF h, of clock0 "answering text_response"] h m
    request_id0
  show ?thesis by simp
qed

lemma incomplete_mentions_retry:
  "sublist ''Please try again'' (''OpenAI Deep Research failed: '' @ incomplete_message response)"
proof -
  define rest where "rest = '' in a few moments. Status: '' @ status response @
     '', Reasoning tokens used: '' @
     show_nat (case usage response of None \<Rightarrow> 0 | Some u \<Rightarrow> reasoning_tokens u)"
  have eq: "''OpenAI Deep Research failed: '' @ incomplete_message response =
     (''OpenAI Deep Research failed: '' @
      ''OpenAI Deep Research response incomplete. The model is still processing your request. '') @
     ''Please try again'' @ rest"
    unfolding incomplete_message_def rest_def by simp
  show ?thesis unfolding eq by (rule sublist_appendI)
qed

lemma client_incomplete:
  assumes "openai (getModelForAccuracy (accuracy_level q)) (research_query q) = Inr response"
    and "status response = ''incomplete''"
  shows "performDeepResearch openai q =
     (Inl (''OpenAI Deep Research failed: '' @ incomplete_message response),
      [ApiCall (getModelForAccuracy (accuracy_level q)) (research_query q),
       LogError ''OpenAI Client: performDeepResearch failed''])"
  using assms by (simp add: performDeepResearch_def client_failure_def Let_def)

text \<open>
  Claim C3. When a request validates and the one call of the external service, made with
  the sanitised query, returns a response with status \<open>incomplete\<close>, then
  \<open>performDeepResearch\<close> fails, the run holds exactly that one call of the service, and
  the handler answers with a failure envelope: \<open>success\<close> false, error type
  \<open>internal_error\<close>, the request id, and an error message that contains
  \<open>Please try again\<close>.
\<close>

theorem incomplete_response_fails:
  assumes "validateResearchRequest r = Valid v"
    and "openai (getModelForAccuracy (accuracy_level v)) (sanitizeQuery (research_query v)) =
           Inr response"
    and "status response = ''incomplete''"
  shows "isl (fst (performDeepResearch openai
                     (v\<lparr>research_query := sanitizeQuery (research_query v)\<rparr>))) \<and>
         filter is_api_call (snd (handleDeepResearchRequest clk openai r)) =
           [ApiCall (getModelForAccuracy (accuracy_level v)) (sanitizeQuery (research_query v))] \<and>
         \<not> success (fst (handleDeepResearchRequest clk openai r)) \<and>
         (\<exists>p. fst (handleDeepResearchRequest clk openai r) = Failure p \<and>
              f_error_type p = ''internal_error'' \<and>
              f_request_id p = make_request_id clk \<and>
              sublist ''Please try again'' (f_error p))"
proof -
  let ?q = "v\<lparr>research_query := sanitizeQuery (research_query v)\<rparr>"
  have c: "performDeepResearch openai ?q =
     (Inl (''OpenAI Deep Research failed: '' @ incomplete_message response),
      [ApiCall (getModelForAccuracy (accuracy_level v)) (sanitizeQuery (research_query v)),
       LogError ''OpenAI Client: performDeepResearch failed''])"
    using client_incomplete [of openai ?q response] assms(2,3) by simp
  have h: "handleDeepResearchRequest clk openai r =
     (Failure \<lparr>f_error = ''OpenAI Deep Research failed: '' @ incomplete_message response,
               f_error_type = ''internal_error'', f_request_id = make_request_id clk,
               f_timestamp = Some (iso_now clk)\<rparr>,
      [ClientCall ?q,
       ApiCall (getModelForAccuracy (accuracy_level v)) (sanitizeQuery (research_query v)),
       LogError ''OpenAI Client: performDeepResearch failed'',
       LogError ''Research request failed''])"
    by (simp add: handleDeepResearchRequest_def assms(1) c Let_def)
  show ?thesis
    using incomplete_mentions_retry [of response] by (simp add: c h)
qed

text \<open>The theorem at a valid request and a service that answers \<open>incomplete\<close>.\<close>

theorem incomplete_response_witness:
  "validateResearchRequest plain_request = Valid plain_validated \<and>
   status stalled_response = ''incomplete'' \<and>
   \<not> success (fst (handleDeepResearchRequest clock0 (answering stalled_response) plain_request)) \<and>
   filter is_api_call
     (snd (handleDeepResearchRequest clock0 (answering stalled_response) plain_request)) =
     [ApiCall (getModelForAccuracy (accuracy_level plain_validated))
        (sanitizeQuery (research_query plain_validated))]"
proof -
  have s: "status stalled_response = ''incomplete''" by (simp add: stalled_response_def)
  have a: "answering stalled_response (getModelForAccuracy (accuracy_level plain_validated))
             (sanitizeQuery (research_query plain_validated)) = Inr stalled_response"
    by (simp add: answering_def)
  from incomplete_response_fails
    [of plain_request plain_validated "answering stalled_response" stalled_response clock0,
     OF plain_valid a s]
    plain_valid s
  show ?thesis by blast
qed

lemma final_content_nonempty: "final_content response content \<noteq> []"
  by (auto simp: final_content_def no_usable_content_def parsing_error_placeholder_def)

lemma placeholder_prefix:
  "prefix ''[Content parsing error: '' (parsing_error_placeholder response)"
  by (simp add: parsing_error_placeholder_def)

text \<open>
  What the end of \<open>performDeepResearch\<close> does once the extraction has run through without
  an error: the result is never empty, and content that is empty or blank is replaced
  by the placeholder that starts with \<open>[Content parsing error\<close>, with a line logged at
  error severity, when the output token count is not zero, and by
  \<open>No content returned from OpenAI\<close> when it is zero.
\<close>

lemma placeholder_after_extraction:
  assumes "openai (getModelForAccuracy (accuracy_level request)) (research_query request) =
             Inr response"
    and "status response \<noteq> ''incomplete''"
    and "extracted_content response = Inr content"
  shows "\<exists>res evs. performDeepResearch openai request = (Inr res, evs) \<and>
           research_results res \<noteq> [] \<and>
           (no_usable_content content \<longrightarrow>
              (if output_token_count response > 0
               then research_results res = parsing_error_placeholder response \<and>
                    prefix ''[Content parsing error: '' (research_results res) \<and>
                    LogError ''Content extraction failed despite token usage'' \<in> set evs
               else research_results res = ''No content returned from OpenAI''))"
  using assms final_content_nonempty [of response content] placeholder_prefix [of response]
  by (simp add: performDeepResearch_def Let_def final_content_def)

text \<open>
  For instance a completed response whose only text is one blank, with 4000 output
  tokens, gives the placeholder and the log line.
\<close>

lemma blank_response_placeholder:
  "\<exists>res evs. performDeepResearch (answering blank_response) plain_request = (Inr res, evs) \<and>
     prefix ''[Content parsing error: '' (research_results res) \<and>
     LogError ''Content extraction failed despite token usage'' \<in> set evs"
proof -
  have s: "status blank_response \<noteq> ''incomplete''" by (simp add: blank_response_def)
  have x: "extracted_content blank_response = Inr '' ''"
    by (simp add: extracted_content_def from_output_text_def from_top_level_def
        truthy_string_def string_of_def blank_response_def)
  have n: "no_usable_content '' ''"
    by (simp add: no_usable_content_def trim_def is_space_def)
  have t: "output_token_count blank_response > 0"
    by (simp add: output_token_count_def blank_response_def usage0_def)
  have a: "answering blank_response (getModelForAccuracy (accuracy_level plain_request))
             (research_query plain_request) = Inr blank_response"
    by (simp add: answering_def)
  from placeholder_after_extraction
    [where openai = "answering blank_response" and request = plain_request
       and response = blank_response and content = "'' ''", OF a s x] n t
  show ?thesis by auto
qed

text \<open>
  Claim C8 fails on the code. In a completed response whose content item carries a text
  that is truthy and not a string, here the number 5, no extraction method yields text:
  the convenience field and the fields of the response itself are absent, and the type
  test of the inner loop refuses such a text. The log line in front of that test has
  already called \<open>substring\<close> on it, so \<open>performDeepResearch\<close> throws and returns no
  \<open>research_results\<close>, and the handler answers with a failure envelope.
\<close>

theorem non_string_text_throws:
  "status numeric_text_response \<noteq> ''incomplete'' \<and>
   from_output_text numeric_text_response = [] \<and>
   from_top_level numeric_text_response = [] \<and>
   output_token_count numeric_text_response = 4000 \<and>
   fst (performDeepResearch (answering numeric_text_response) plain_request) =
     Inl ''OpenAI Deep Research failed: contentItem.text.substring is not a function'' \<and>
   \<not> success (fst (handleDeepResearchRequest clock0 (answering numeric_text_response)
                      plain_request))"
proof -
  have x: "extracted_content numeric_text_response = Inl not_a_function_message"
    by (simp add: extracted_content_def from_output_text_def numeric_text_response_def)
  have s: "status numeric_text_response \<noteq> ''incomplete''"
    by (simp add: numeric_text_response_def)
  have c: "performDeepResearch (answering numeric_text_response) q =
     client_failure not_a_function_message
       [ApiCall (getModelForAccuracy (accuracy_level q)) (research_query q)]" for q
    by (simp add: performDeepResearch_def answering_def s x Let_def)
  show ?thesis
    by (simp add: s c handleDeepResearchRequest_def plain_valid Let_def client_failure_def
        not_a_function_message_def)
      (simp add: numeric_text_response_def from_output_text_def from_top_level_def
        truthy_text_def output_token_count_def usage0_def)
qed

text \<open>
  Claim C9. No run of the handler contains a call of \<open>checkRateLimit\<close> or of
  \<open>recordRequest\<close>, and every success envelope reports \<open>rate_limit_remaining\<close> as 100.
\<close>

theorem handler_never_rate_limits:
  "(\<forall>e \<in> set (snd (handleDeepResearchRequest clk openai r)). \<not> is_rate_limiter_call e) \<and>
   (\<forall>p. fst (handleDeepResearchRequest clk openai r) = Success p \<longrightarrow>
        s_rate_limit_remaining p = 100)"
  by (auto simp: handleDeepResearchRequest_def performDeepResearch_def client_failure_def Let_def
      split: validation_result.splits sum.splits prod.splits if_splits)

text \<open>The theorem at a request that succeeds.\<close>

theorem handler_never_rate_limits_witness:
  "ClientCall plain_validated \<in>
     set (snd (handleDeepResearchRequest clock0 (answering text_response) plain_request)) \<and>
   \<not> is_rate_limiter_call (ClientCall plain_validated) \<and>
   success (fst (handleDeepResearchRequest clock0 (answering text_response) plain_request)) \<and>
   (\<exists>p. fst (handleDeepResearchRequest clock0 (answering text_response) plain_request) =
          Success p \<and> s_rate_limit_remaining p = 100)"
proof -
  let ?run = "handleDeepResearchRequest clock0 (answering text_response) plain_request"
  have q: "plain_validated\<lparr>research_query := ''history of the metric system''\<rparr> = plain_validated"
    by (simp add: plain_validated_def)
  have s: "status text_response \<noteq> ''incomplete''"
    by (simp add: text_response_def)
  have x: "extracted_content text_response = Inr ''Findings [1]''"
    by (simp add: extracted_content_def from_output_text_def text_response_def trim_def
        is_space_def)
  have e: "ClientCall plain_validated \<in> set (snd ?run)"
    by (simp add: handleDeepResearchRequest_def plain_valid plain_sanitized q s x
        performDeepResearch_def answering_def Let_def)
  have ok: "success (fst ?run)"
    by (simp add: handleDeepResearchRequest_def plain_valid plain_sanitized q s x
        performDeepResearch_def answering_def Let_def)
  then obtain p where p: "fst ?run = Success p"
    by (cases "fst ?run") simp_all
  with handler_never_rate_limits [of clock0 "answering text_response" plain_request]
  have r: "s_rate_limit_remaining p = 100" by blast
  from handler_never_rate_limits [of clock0 "answering text_response" plain_request] e
  have n: "\<not> is_rate_limiter_call (ClientCall plain_validated)" by blast
  show ?thesis using e n ok p r by blast
qed


section \<open>The rate limiter\<close>

lemma keys_distinct:
  "hourKey h \<noteq> dailyKey d l" "hourKey h \<noteq> costKey d" "dailyKey d l \<noteq> costKey d'"
  "dailyKey d l \<noteq> hourKey h" "costKey d \<noteq> hourKey h" "costKey d' \<noteq> dailyKey d l"
  by (simp_all add: hourKey_def dailyKey_def costKey_def)

lemma hourlyRequests_recordRequest:
  assumes "t div (60 * 60 * 1000) = now div (60 * 60 * 1000)"
  shows "hourlyRequests (recordRequest clientUsage clientId l c k t) clientId now =
         hourlyRequests clientUsage clientId now + 1"
  using assms
  by (simp add: hourlyRequests_def recordRequest_def get_or_create_def count_of_def keys_distinct
      Let_def split: option.splits)

lemma hourlyRequests_record_all:
  assumes "\<forall>rq \<in> set recs. recorded_at rq div (60 * 60 * 1000) = now div (60 * 60 * 1000)"
  shows "hourlyRequests (record_all clientUsage clientId recs) clientId now =
         hourlyRequests clientUsage clientId now + of_nat (length recs)"
  using assms
proof (induction recs arbitrary: clientUsage)
  case Nil
  then show ?case by simp
next
  case (Cons rq recs)
  obtain l c k t where rq: "rq = (l, c, k, t)" by (cases rq) auto
  have t: "t div (60 * 60 * 1000) = now div (60 * 60 * 1000)"
    using Cons.prems rq by simp
  have "hourlyRequests (record_all (recordRequest clientUsage clientId l c k t) clientId recs)
          clientId now =
        hourlyRequests (recordRequest clientUsage clientId l c k t) clientId now +
          of_nat (length recs)"
    using Cons.prems by (intro Cons.IH) simp
  then show ?case
    by (simp add: rq hourlyRequests_recordRequest [OF t])
qed

lemma check_hourly:
  assumes "of_int (getHourlyLimit config accuracyLevel) \<le> hourlyRequests clientUsage clientId now"
  shows "fst (checkRateLimit config clientUsage clientId accuracyLevel estimatedCost now) =
     \<lparr>allowed = False, reason = Some ''hourly_limit'', remaining = 0,
       retryAfter = (now div (60 * 60 * 1000) + 1) * 60 * 60 * 1000,
       costRemaining = daily_cost_limit_usd config -
                       totalCost (get_or_create clientUsage clientId now)\<rparr>"
  using assms by (simp add: checkRateLimit_def hourlyRequests_def Let_def)

text \<open>
  The counter of the current hour is never negative in a table that starts empty and
  changes by \<open>recordRequest\<close> and \<open>checkRateLimit\<close>.
\<close>

lemma hourlyRequests_empty: "hourlyRequests Map.empty clientId now = 0"
  by (simp add: hourlyRequests_def get_or_create_def count_of_def)

lemma hourlyRequests_nonneg_recordRequest:
  assumes "\<forall>cid now. 0 \<le> hourlyRequests clientUsage cid now"
  shows "0 \<le> hourlyRequests (recordRequest clientUsage clientId' l c k t) clientId now"
proof -
  have a: "0 \<le> count_of (requestCounts (get_or_create clientUsage clientId now'))
                   (hourKey (now div (60 * 60 * 1000)))"
    for now'
  proof -
    have "0 \<le> hourlyRequests clientUsage clientId now" using assms by blast
    then show ?thesis
      by (simp add: hourlyRequests_def get_or_create_def split: option.splits)
  qed
  show ?thesis
    using a [of t] a [of now]
    by (auto simp: hourlyRequests_def recordRequest_def get_or_create_def count_of_def keys_distinct
        Let_def split: option.splits)
qed

lemma hourlyRequests_checkRateLimit:
  "hourlyRequests (snd (checkRateLimit config clientUsage clientId' l e t)) clientId now =
   hourlyRequests clientUsage clientId now"
  by (auto simp: hourlyRequests_def checkRateLimit_def get_or_create_def count_of_def Let_def
      split: option.splits)

text \<open>
  Claim C6. Take a table in which the client's counter of the current hour is not
  negative, and let \<open>recordRequest\<close> be called for the client as many times as the hourly
  limit of the accuracy level says, all calls in one hour. Then \<open>checkRateLimit\<close> for that
  client and level in the same hour denies with reason \<open>hourly_limit\<close> and a \<open>retryAfter\<close>
  at the start of the next hour, whatever the estimated cost, the accumulated cost and the
  daily counters are: the hourly check comes first.
\<close>

theorem hourly_limit_reached:
  assumes "\<forall>rq \<in> set recs. recorded_at rq div (60 * 60 * 1000) = now div (60 * 60 * 1000)"
    and "int (length recs) = getHourlyLimit config accuracyLevel"
    and "0 \<le> hourlyRequests clientUsage clientId now"
  shows "allowed (fst (checkRateLimit config (record_all clientUsage clientId recs) clientId
                         accuracyLevel estimatedCost now)) = False \<and>
         reason (fst (checkRateLimit config (record_all clientUsage clientId recs) clientId
                         accuracyLevel estimatedCost now)) = Some ''hourly_limit'' \<and>
         retryAfter (fst (checkRateLimit config (record_all clientUsage clientId recs) clientId
                         accuracyLevel estimatedCost now)) =
           (now div (60 * 60 * 1000) + 1) * (60 * 60 * 1000)"
proof -
  have "hourlyRequests (record_all clientUsage clientId recs) clientId now =
        hourlyRequests clientUsage clientId now + of_nat (length recs)"
    using assms(1) by (rule hourlyRequests_record_all)
  moreover have "(of_int (getHourlyLimit config accuracyLevel) :: rat) = of_nat (length recs)"
    using assms(2) by (metis of_int_of_nat_eq)
  ultimately have "of_int (getHourlyLimit config accuracyLevel) \<le>
                   hourlyRequests (record_all clientUsage clientId recs) clientId now"
    using assms(3) by simp
  then show ?thesis by (simp add: check_hourly)
qed

text \<open>
  The theorem at an hourly limit of 2 for high accuracy: two requests of high accuracy
  recorded in one hour on the empty table, then a check a few minutes later with an
  estimated cost above the daily cap. The daily count has reached its limit too, and the
  reason given is the hourly one.
\<close>

theorem hourly_limit_reached_witness:
  "map (\<lambda>rq. recorded_at rq div (60 * 60 * 1000)) two_records =
     [1700001000000 div (60 * 60 * 1000), 1700001000000 div (60 * 60 * 1000)] \<and>
   int (length two_records) = getHourlyLimit config0 High \<and>
   0 \<le> hourlyRequests Map.empty ''default_client'' 1700001000000 \<and>
   allowed (fst (checkRateLimit config0 (record_all Map.empty ''default_client'' two_records)
                   ''default_client'' High (Some 100) 1700001000000)) = False \<and>
   reason (fst (checkRateLimit config0 (record_all Map.empty ''default_client'' two_records)
                   ''default_client'' High (Some 100) 1700001000000)) = Some ''hourly_limit'' \<and>
   retryAfter (fst (checkRateLimit config0 (record_all Map.empty ''default_client'' two_records)
                   ''default_client'' High (Some 100) 1700001000000)) = 1700002800000"
proof -
  have a: "\<forall>rq \<in> set two_records.
             recorded_at rq div (60 * 60 * 1000) = 1700001000000 div (60 * 60 * 1000)"
    by (simp add: two_records_def)
  have b: "int (length two_records) = getHourlyLimit config0 High"
    by (simp add: two_records_def getHourlyLimit_def config0_def)
  have c: "0 \<le> hourlyRequests Map.empty ''default_client'' 1700001000000"
    by (simp add: hourlyRequests_empty)
  have d: "map (\<lambda>rq. recorded_at rq div (60 * 60 * 1000)) two_records =
     [1700001000000 div (60 * 60 * 1000), 1700001000000 div (60 * 60 * 1000)]"
    by (simp add: two_records_def)
  from hourly_limit_reached [OF a b c, where estimatedCost = "Some 100"] b c d
  show ?thesis by simp
qed

lemma check_ignores_requests_per_hour:
  "checkRateLimit (config\<lparr>requests_per_hour := n\<rparr>) clientUsage clientId accuracyLevel
     estimatedCost now =
   checkRateLimit config clientUsage clientId accuracyLevel estimatedCost now"
  by (simp add: checkRateLimit_def getHourlyLimit_def getDailyLimit_def Let_def
      cong: option.case_cong)

lemma hourly_reason_iff:
  "(reason (fst (checkRateLimit config clientUsage clientId accuracyLevel estimatedCost now)) =
      Some ''hourly_limit'') =
   (of_int (getHourlyLimit config accuracyLevel) \<le> hourlyRequests clientUsage clientId now)"
  by (simp add: checkRateLimit_def hourlyRequests_def Let_def)

text \<open>
  Claim C10. The hourly limit is the daily limit of the accuracy level from the
  configuration: \<open>high_accuracy_daily_limit\<close>, or 3 when that is falsy, for high, and
  \<open>medium_accuracy_daily_limit\<close>, or 6 when that is falsy, for medium. \<open>checkRateLimit\<close>
  denies for the hour exactly when the counter of the hour has reached that limit, and
  its whole result is the same for every value of \<open>requests_per_hour\<close>.
\<close>

theorem hourly_limit_source:
  "getHourlyLimit config High =
     (if high_accuracy_daily_limit config = 0 then 3 else high_accuracy_daily_limit config) \<and>
   getHourlyLimit config Medium =
     (if medium_accuracy_daily_limit config = 0 then 6
      else medium_accuracy_daily_limit config) \<and>
   checkRateLimit (config\<lparr>requests_per_hour := n\<rparr>) clientUsage clientId accuracyLevel
     estimatedCost now =
     checkRateLimit config clientUsage clientId accuracyLevel estimatedCost now \<and>
   (reason (fst (checkRateLimit config clientUsage clientId accuracyLevel estimatedCost now)) =
      Some ''hourly_limit'') =
     (of_int (getHourlyLimit config accuracyLevel) \<le> hourlyRequests clientUsage clientId now)"
  using check_ignores_requests_per_hour hourly_reason_iff
  by (simp add: getHourlyLimit_def)

end
